theory Spec2Isabelle
  imports
    Main
    "HOL-Library.Sublist"
    "HOL-Library.Char_ord"
    "HOL-Library.List_Lexorder"
    "HOL-Library.Multiset"
begin

unbundle bit_operations_syntax

section \<open>Strings\<close>

text \<open>
  Python's \<^verbatim>\<open>str\<close> is modelled by \<^typ>\<open>string\<close>: a list of 8-bit characters, read as
  the code points U+0000 to U+00FF.  The string operations the upload view uses are
  written out below with Python's behaviour on that range.
\<close>

definition lower_char :: "char \<Rightarrow> char" where
  \<comment> \<open>\<^verbatim>\<open>str.lower\<close> on one code point: A-Z, and the Latin-1 capitals except U+00D7.\<close>
  "lower_char c =
     (let n = (of_char c :: nat) in
      if (65 \<le> n \<and> n \<le> 90) \<or> (192 \<le> n \<and> n \<le> 222 \<and> n \<noteq> 215)
      then char_of (n + 32) else c)"

definition lower :: "string \<Rightarrow> string" where
  "lower s = map lower_char s"

definition endswith :: "string \<Rightarrow> string \<Rightarrow> bool" where
  \<comment> \<open>\<^verbatim>\<open>s.endswith(t)\<close>\<close>
  "endswith s t = suffix t s"

definition startswith :: "string \<Rightarrow> string \<Rightarrow> bool" where
  \<comment> \<open>\<^verbatim>\<open>s.startswith(t)\<close>\<close>
  "startswith s t = prefix t s"

fun str_in :: "string \<Rightarrow> string \<Rightarrow> bool" where
  \<comment> \<open>\<^verbatim>\<open>sub in s\<close>: \<open>sub\<close> occurs in \<open>s\<close> as a contiguous run.\<close>
  "str_in sub [] = (sub = [])"
| "str_in sub (c # cs) = (prefix sub (c # cs) \<or> str_in sub cs)"

fun str_split :: "char \<Rightarrow> string \<Rightarrow> string list" where
  \<comment> \<open>\<^verbatim>\<open>s.split(sep)\<close> for a one-character separator: never the empty list.\<close>
  "str_split sep [] = [[]]"
| "str_split sep (c # cs) =
     (if c = sep then [] # str_split sep cs
      else (case str_split sep cs of
              [] \<Rightarrow> [[c]]
            | p # ps \<Rightarrow> (c # p) # ps))"

definition hex_digit :: "nat \<Rightarrow> char" where
  "hex_digit n = ''0123456789abcdef'' ! (n mod 16)"

definition is_printable :: "char \<Rightarrow> bool" where
  \<comment> \<open>\<^verbatim>\<open>str.isprintable\<close> on U+0000 to U+00FF.\<close>
  "is_printable c =
     (let n = (of_char c :: nat) in (32 \<le> n \<and> n < 127) \<or> (161 \<le> n \<and> n \<noteq> 173))"

definition repr_char :: "char \<Rightarrow> char \<Rightarrow> string" where
  "repr_char quote c =
     (if c = quote \<or> c = CHR 0x5C then [CHR 0x5C, c]
      else if c = CHR 0x09 then [CHR 0x5C, CHR ''t'']
      else if c = CHR 0x0A then [CHR 0x5C, CHR ''n'']
      else if c = CHR 0x0D then [CHR 0x5C, CHR ''r'']
      else if \<not> is_printable c
      then [CHR 0x5C, CHR ''x'', hex_digit (of_char c div 16), hex_digit (of_char c)]
      else [c])"

definition py_repr :: "string \<Rightarrow> string" where
  \<comment> \<open>\<^verbatim>\<open>repr(s)\<close>, which the format \<^verbatim>\<open>{s!r}\<close> inserts: the string in quotes, with the
      quote character, the backslash and the unprintable characters escaped.\<close>
  "py_repr s =
     (let quote = (if CHR 0x27 \<in> set s \<and> CHR 0x22 \<notin> set s then CHR 0x22 else CHR 0x27)
      in [quote] @ concat (map (repr_char quote) s) @ [quote])"

section \<open>Settings and archive members\<close>

record settings =
  DISALLOWED_SYMBOLS_SNIPPETS :: "string list"
  UPLOAD_DEFAULT_URL :: string
  UPLOAD_TRY_SYMBOLS_URL :: string
  UPLOAD_URL_EXCEPTIONS :: "(string \<times> string) list"
  SYMBOL_FILE_PREFIX :: string
  SYNCHRONOUS_UPLOAD_FILE_UPLOAD :: bool
  UPLOAD_FILE_UPLOAD_MAX_WORKERS :: nat

text \<open>
  An entry of the file listing that \<^verbatim>\<open>dump_and_extract\<close> returns: the member's name
  inside the archive, its size in bytes and the path of the extracted file.
\<close>

record member =
  name :: string
  fsize :: nat
  path :: string

section \<open>Validation of the file listing\<close>

definition ignorable_filenames :: "string list" where
  "ignorable_filenames = [''.DS_Store'']"

definition not_hex_character :: "char \<Rightarrow> bool" where
  \<comment> \<open>The class \<^verbatim>\<open>[^a-f0-9]\<close> compiled with \<^verbatim>\<open>re.I\<close>.\<close>
  "not_hex_character c =
     (\<not> ((CHR ''a'' \<le> c \<and> c \<le> CHR ''f'') \<or> (CHR ''A'' \<le> c \<and> c \<le> CHR ''F'')
         \<or> (CHR ''0'' \<le> c \<and> c \<le> CHR ''9'')))"

definition not_hex_characters_findall :: "string \<Rightarrow> string" where
  \<comment> \<open>\<^verbatim>\<open>_not_hex_characters.findall(s)\<close>: the characters of \<open>s\<close> that match.\<close>
  "not_hex_characters_findall s = filter not_hex_character s"

definition invalid_key_name_characters :: "(char \<Rightarrow> bool) \<Rightarrow> string \<Rightarrow> bool" where
  \<comment> \<open>Modelled from the spec: \<^verbatim>\<open>tecken.base.utils.invalid_key_name_characters\<close> is not
      among the sources.  The spec has it tell whether the string holds a character
      that is illegal in a storage object key; which characters those are is the
      parameter \<open>illegal\<close>.\<close>
  "invalid_key_name_characters illegal key = (\<exists>c \<in> set key. illegal c)"

definition snippet_error :: "string \<Rightarrow> string" where
  "snippet_error snippet =
     ''Content of archive file contains the snippet '' @ [CHR 0x27] @ snippet @ [CHR 0x27]
       @ '' which is not allowed''"

definition invalid_character_error :: "string \<Rightarrow> string" where
  "invalid_character_error n = ''Invalid character in filename '' @ py_repr n"

definition unrecognized_error :: "string \<Rightarrow> string" where
  "unrecognized_error n =
     ''Unrecognized file pattern. Should only be <module>/<hex>/<file> ''
       @ ''or <name>-symbols.txt and nothing else. ''
       @ ''(First unrecognized pattern was '' @ n @ '')''"

fun check_symbols_archive_file_listing ::
  "settings \<Rightarrow> (char \<Rightarrow> bool) \<Rightarrow> member list \<Rightarrow> string option" where
  "check_symbols_archive_file_listing st illegal [] = None"
| "check_symbols_archive_file_listing st illegal (file_listing # file_listings) =
     (case List.find (\<lambda>snippet. str_in snippet (name file_listing))
             (DISALLOWED_SYMBOLS_SNIPPETS st) of
        Some snippet \<Rightarrow> Some (snippet_error snippet)
      | None \<Rightarrow>
          (let split = str_split (CHR ''/'') (name file_listing) in
           if last split \<in> set ignorable_filenames
           then check_symbols_archive_file_listing st illegal file_listings
           else if length split = 3
           then (if invalid_key_name_characters illegal (split ! 0 @ split ! 2)
                 then Some (invalid_character_error (name file_listing))
                 else if not_hex_characters_findall (split ! 1) = []
                 then check_symbols_archive_file_listing st illegal file_listings
                 else Some (unrecognized_error (name file_listing)))
           else if length split = 1
           then (if endswith (lower (name file_listing)) ''-symbols.txt''
                 then check_symbols_archive_file_listing st illegal file_listings
                 else Some (unrecognized_error (name file_listing)))
           else Some (unrecognized_error (name file_listing))))"

declare check_symbols_archive_file_listing.simps(2) [simp del]

section \<open>Identities and bucket resolution\<close>

text \<open>
  A Django user, as far as the view reads it: the address, the superuser flag and the
  answer of \<^verbatim>\<open>has_perm\<close> to a permission name.
\<close>

record user =
  email :: string
  is_superuser :: bool
  has_perm :: "string \<Rightarrow> bool"

text \<open>
  The argument \<^verbatim>\<open>try_symbols\<close> is a string when it comes from the POST data and a
  Boolean when \<^verbatim>\<open>get_bucket_info\<close> derives it; \<^verbatim>\<open>None\<close> is the \<open>None\<close> of the option
  type.  \<open>truthy\<close> is Python's truth value of either.
\<close>

datatype try_value = TryStr string | TryBool bool

fun truthy :: "try_value \<Rightarrow> bool" where
  "truthy (TryStr s) = (s \<noteq> [])"
| "truthy (TryBool b) = b"

record storage_bucket =
  url :: string
  try_symbols :: try_value

definition StorageBucket :: "string \<Rightarrow> try_value \<Rightarrow> storage_bucket" where
  \<comment> \<open>Modelled from the spec: the class \<^verbatim>\<open>tecken.storage.StorageBucket\<close> is not among the
      sources.  The spec has the target built from the resolved URL and the resolved try
      flag; the object keeps both.  What the class reads out of the URL (name, prefix,
      region, endpoint) is the collaborator \<open>parse_url\<close> below.\<close>
  "StorageBucket u t = \<lparr>url = u, try_symbols = t\<rparr>"

datatype bucket_error = NoPossibleBucketName string

text \<open>
  \<^verbatim>\<open>settings.UPLOAD_URL_EXCEPTIONS\<close> is a dictionary from an address or a wildcard pattern
  to a URL, held here as the list of its items in the order of the dictionary.
  \<^verbatim>\<open>fnmatch.fnmatch\<close> of the standard library is the parameter \<open>fnmatch\<close>, applied to
  the name first and the pattern second.
\<close>

definition get_possible_bucket_urls ::
  "settings \<Rightarrow> (string \<Rightarrow> string \<Rightarrow> bool) \<Rightarrow> user \<Rightarrow> (string \<times> string) list" where
  "get_possible_bucket_urls st fnmatch u =
     (let exceptions = UPLOAD_URL_EXCEPTIONS st;
          email_lower = lower (email u);
          urls = map (\<lambda>(email_pattern, exception_url). (exception_url, ''private''))
                   (filter (\<lambda>(email_pattern, exception_url).
                              email_lower = lower email_pattern
                              \<or> fnmatch email_lower (lower email_pattern)
                              \<or> is_superuser u)
                      exceptions)
      in if urls = [] then [(UPLOAD_DEFAULT_URL st, ''public'')] else urls)"

definition get_bucket_info ::
  "settings \<Rightarrow> (string \<Rightarrow> string \<Rightarrow> bool) \<Rightarrow> user \<Rightarrow> try_value option \<Rightarrow> string option
     \<Rightarrow> bucket_error + storage_bucket" where
  "get_bucket_info st fnmatch u try_symbols_arg preferred_bucket_name =
     (let try_symbols =
            (case try_symbols_arg of
               None \<Rightarrow> TryBool (\<not> has_perm u ''upload.upload_symbols'')
             | Some t \<Rightarrow> t);
          default_url =
            (if truthy try_symbols then UPLOAD_TRY_SYMBOLS_URL st else UPLOAD_DEFAULT_URL st);
          exceptions = UPLOAD_URL_EXCEPTIONS st;
          preferred = (case preferred_bucket_name of None \<Rightarrow> [] | Some p \<Rightarrow> p)
      in if preferred \<noteq> []
         then (case List.find (\<lambda>(possible_url, visibility). str_in preferred possible_url)
                      (get_possible_bucket_urls st fnmatch u) of
                 Some (possible_url, visibility) \<Rightarrow> Inr (StorageBucket possible_url try_symbols)
               | None \<Rightarrow> Inl (NoPossibleBucketName preferred))
         else (let exception =
                     (case map_of exceptions (lower (email u)) of
                        Some exception_url \<Rightarrow> Some exception_url
                      | None \<Rightarrow>
                          map_option snd
                            (List.find (\<lambda>(email_or_wildcard, exception_url).
                                          fnmatch (lower (email u)) (lower email_or_wildcard))
                               exceptions))
               in Inr (StorageBucket
                         (case exception of
                            None \<Rightarrow> default_url
                          | Some exception_url \<Rightarrow>
                              if exception_url \<noteq> [] then exception_url else default_url)
                         try_symbols)))"

text \<open>
  The URLs an identity may use, in the words of the specification: the URLs of the
  exception-list entries that match its address, every exception-list URL for a
  superuser, or else the one public default URL.
\<close>

definition email_matches :: "(string \<Rightarrow> string \<Rightarrow> bool) \<Rightarrow> user \<Rightarrow> string \<Rightarrow> bool" where
  "email_matches fnmatch u email_pattern =
     (lower (email u) = lower email_pattern \<or> fnmatch (lower (email u)) (lower email_pattern))"

definition permitted_urls :: "settings \<Rightarrow> (string \<Rightarrow> string \<Rightarrow> bool) \<Rightarrow> user \<Rightarrow> string list" where
  "permitted_urls st fnmatch u =
     (let matching = map snd (filter (\<lambda>entry. email_matches fnmatch u (fst entry))
                                (UPLOAD_URL_EXCEPTIONS st));
          every = map snd (UPLOAD_URL_EXCEPTIONS st)
      in if is_superuser u \<and> every \<noteq> [] then every
         else if matching \<noteq> [] then matching
         else [UPLOAD_DEFAULT_URL st])"

section \<open>Paths, keys and the content hash\<close>

definition os_path_join :: "string \<Rightarrow> string \<Rightarrow> string" where
  \<comment> \<open>\<^verbatim>\<open>os.path.join(a, b)\<close> of \<^verbatim>\<open>posixpath\<close>.\<close>
  "os_path_join a b =
     (if startswith b ''/'' then b
      else if a = [] \<or> endswith a ''/'' then a @ b
      else a @ ''/'' @ b)"

definition os_path_basename :: "string \<Rightarrow> string" where
  \<comment> \<open>\<^verbatim>\<open>os.path.basename(p)\<close> of \<^verbatim>\<open>posixpath\<close>: what follows the last slash.\<close>
  "os_path_basename p = rev (takeWhile (\<lambda>c. c \<noteq> CHR ''/'') (rev p))"

definition ignore_member_file :: "string \<Rightarrow> bool" where
  "ignore_member_file filename =
     (if endswith (lower filename) ''-symbols.txt'' then True
      else if os_path_basename filename \<in> set ignorable_filenames then True
      else False)"

fun str_nat :: "nat \<Rightarrow> string" where
  \<comment> \<open>\<^verbatim>\<open>str(n)\<close> of a natural number, as a format inserts it.\<close>
  "str_nat n =
     (if n < 10 then [char_of (48 + n)]
      else str_nat (n div 10) @ [char_of (48 + n mod 10)])"

declare str_nat.simps [simp del]

fun str_join :: "string \<Rightarrow> string list \<Rightarrow> string" where
  \<comment> \<open>\<^verbatim>\<open>sep.join(parts)\<close>\<close>
  "str_join sep [] = []"
| "str_join sep [p] = p"
| "str_join sep (p # q # ps) = p @ sep @ str_join sep (q # ps)"

definition utf8_encode :: "string \<Rightarrow> int list" where
  \<comment> \<open>\<^verbatim>\<open>s.encode("utf-8")\<close> on U+0000 to U+00FF: one byte below U+0080, two from there.\<close>
  "utf8_encode s =
     concat (map (\<lambda>c. let n = (of_char c :: int) in
                       if n < 128 then [n] else [192 + n div 64, 128 + n mod 64]) s)"

subsection \<open>MD5\<close>

text \<open>
  \<^verbatim>\<open>hashlib.md5\<close> after RFC 1321, on integers with the reduction modulo \<open>2 ^ 32\<close> written
  out after every addition.
\<close>

definition md5_shifts :: "nat list" where
  "md5_shifts =
     [7, 12, 17, 22, 7, 12, 17, 22, 7, 12, 17, 22, 7, 12, 17, 22,
      5, 9, 14, 20, 5, 9, 14, 20, 5, 9, 14, 20, 5, 9, 14, 20,
      4, 11, 16, 23, 4, 11, 16, 23, 4, 11, 16, 23, 4, 11, 16, 23,
      6, 10, 15, 21, 6, 10, 15, 21, 6, 10, 15, 21, 6, 10, 15, 21]"

definition md5_sines :: "int list" where
  "md5_sines =
     [0xd76aa478, 0xe8c7b756, 0x242070db, 0xc1bdceee, 0xf57c0faf, 0x4787c62a, 0xa8304613, 0xfd469501,
      0x698098d8, 0x8b44f7af, 0xffff5bb1, 0x895cd7be, 0x6b901122, 0xfd987193, 0xa679438e, 0x49b40821,
      0xf61e2562, 0xc040b340, 0x265e5a51, 0xe9b6c7aa, 0xd62f105d, 0x02441453, 0xd8a1e681, 0xe7d3fbc8,
      0x21e1cde6, 0xc33707d6, 0xf4d50d87, 0x455a14ed, 0xa9e3e905, 0xfcefa3f8, 0x676f02d9, 0x8d2a4c8a,
      0xfffa3942, 0x8771f681, 0x6d9d6122, 0xfde5380c, 0xa4beea44, 0x4bdecfa9, 0xf6bb4b60, 0xbebfbc70,
      0x289b7ec6, 0xeaa127fa, 0xd4ef3085, 0x04881d05, 0xd9d4d039, 0xe6db99e5, 0x1fa27cf8, 0xc4ac5665,
      0xf4292244, 0x432aff97, 0xab9423a7, 0xfc93a039, 0x655b59c3, 0x8f0ccc92, 0xffeff47d, 0x85845dd1,
      0x6fa87e4f, 0xfe2ce6e0, 0xa3014314, 0x4e0811a1, 0xf7537e82, 0xbd3af235, 0x2ad7d2bb, 0xeb86d391]"

definition u32 :: "int \<Rightarrow> int" where
  "u32 x = x mod 4294967296"

definition not32 :: "int \<Rightarrow> int" where
  "not32 x = 4294967295 - x"

definition rotate_left :: "nat \<Rightarrow> int \<Rightarrow> int" where
  "rotate_left n x = u32 (x * 2 ^ n) + x div 2 ^ (32 - n)"

definition md5_step ::
  "int list \<Rightarrow> int \<times> int \<times> int \<times> int \<Rightarrow> nat \<Rightarrow> int \<times> int \<times> int \<times> int" where
  "md5_step m s i =
     (case s of (a, b, c, d) \<Rightarrow>
        (let f = (if i < 16 then (b AND c) OR (not32 b AND d)
                  else if i < 32 then (d AND b) OR (not32 d AND c)
                  else if i < 48 then b XOR c XOR d
                  else c XOR (b OR not32 d));
             g = (if i < 16 then i
                  else if i < 32 then (5 * i + 1) mod 16
                  else if i < 48 then (3 * i + 5) mod 16
                  else (7 * i) mod 16);
             f' = u32 (f + a + md5_sines ! i + m ! g)
         in (d, u32 (b + rotate_left (md5_shifts ! i) f'), b, c)))"

definition md5_chunk ::
  "int \<times> int \<times> int \<times> int \<Rightarrow> int list \<Rightarrow> int \<times> int \<times> int \<times> int" where
  "md5_chunk h m =
     (case h of (a0, b0, c0, d0) \<Rightarrow>
        (case foldl (md5_step m) h [0..<64] of (a, b, c, d) \<Rightarrow>
           (u32 (a0 + a), u32 (b0 + b), u32 (c0 + c), u32 (d0 + d))))"

fun le_bytes :: "nat \<Rightarrow> int \<Rightarrow> int list" where
  \<comment> \<open>The \<open>k\<close> low bytes of \<open>v\<close>, the lowest first.\<close>
  "le_bytes 0 v = []"
| "le_bytes (Suc k) v = (v mod 256) # le_bytes k (v div 256)"

definition md5_pad :: "int list \<Rightarrow> int list" where
  "md5_pad bs =
     bs @ [128] @ replicate ((119 - length bs mod 64) mod 64) 0
        @ le_bytes 8 (8 * int (length bs))"

fun le_words :: "int list \<Rightarrow> int list" where
  "le_words (b0 # b1 # b2 # b3 # bs) =
     (b0 + 256 * b1 + 65536 * b2 + 16777216 * b3) # le_words bs"
| "le_words bs = []"

fun blocks :: "nat \<Rightarrow> int list \<Rightarrow> int list list" where
  "blocks 0 ws = []"
| "blocks (Suc k) ws = take 16 ws # blocks k (drop 16 ws)"

definition md5_digest :: "int list \<Rightarrow> int list" where
  "md5_digest bs =
     (let ws = le_words (md5_pad bs) in
      case foldl md5_chunk (0x67452301, 0xefcdab89, 0x98badcfe, 0x10325476)
             (blocks (length ws div 16) ws) of
        (a, b, c, d) \<Rightarrow> concat (map (le_bytes 4) [a, b, c, d]))"

definition hexdigest :: "int list \<Rightarrow> string" where
  "hexdigest bs = concat (map (\<lambda>b. [hex_digit (nat (b div 16)), hex_digit (nat b)]) bs)"

definition md5_hexdigest :: "int list \<Rightarrow> string" where
  \<comment> \<open>\<^verbatim>\<open>hashlib.md5(bs).hexdigest()\<close>\<close>
  "md5_hexdigest bs = hexdigest (md5_digest bs)"

definition listing_content :: "member list \<Rightarrow> string" where
  \<comment> \<open>The string \<^verbatim>\<open>content\<close> of \<^verbatim>\<open>upload_archive\<close>: a line \<^verbatim>\<open>name:size\<close> for every member,
      the members sorted by name with Python's stable \<^verbatim>\<open>sorted\<close>.\<close>
  "listing_content file_listing =
     str_join [CHR 0x0A]
       (map (\<lambda>x. name x @ '':'' @ str_nat (fsize x)) (sort_key name file_listing))"

definition content_hash_of :: "member list \<Rightarrow> string" where
  "content_hash_of file_listing = take 30 (md5_hexdigest (utf8_encode (listing_content file_listing)))"

section \<open>The upload view\<close>

subsection \<open>Requests, responses and the ledger\<close>

record 'f uploaded_file =
  upload_size :: nat
  upload_content :: 'f

text \<open>
  A request, as far as the view reads it: the uploaded files by name in the order of
  \<^verbatim>\<open>request.FILES\<close>, the POST data and the user.
\<close>

record 'f request =
  FILES :: "(string \<times> 'f uploaded_file) list"
  POST :: "string \<rightharpoonup> string"
  request_user :: user

text \<open>The exceptions of \<^verbatim>\<open>dump_and_extract\<close> that the view catches.\<close>

datatype extract_error =
    BadZipfile string
  | UnrecognizedArchiveFileExtension string
  | DuplicateFileDifferentSize string

text \<open>
  A row of the \<^verbatim>\<open>Upload\<close> table, without its identifier and its time stamps;
  \<open>completed\<close> tells whether \<^verbatim>\<open>completed_at\<close> is set.
\<close>

record upload_row =
  uploader :: string
  filename :: string
  bucket_name :: string
  bucket_region :: "string option"
  bucket_endpoint_url :: "string option"
  archive_size :: nat
  download_url :: "string option"
  redirect_urls :: "string list option"
  content_hash :: string
  upload_try_symbols :: bool
  skipped_keys :: "string list option"
  ignored_keys :: "string list option"
  completed :: bool

datatype response_body = ErrorBody string | UploadBody upload_row

record json_response =
  body :: response_body
  status :: nat

definition JsonResponse :: "response_body \<Rightarrow> nat \<Rightarrow> json_response" where
  "JsonResponse b s = \<lparr>body = b, status = s\<rparr>"

text \<open>The exceptions that leave the view.\<close>

datatype exn =
    ImproperlyConfigured storage_bucket
  | KeyError string
  | UploadError string

subsection \<open>Collaborators\<close>

text \<open>
  What \<^verbatim>\<open>StorageBucket\<close> reads out of a URL, and what \<^verbatim>\<open>upload_file_upload\<close> returns
  when it has written an object.
\<close>

record bucket_location =
  location_name :: string
  location_prefix :: string
  location_region :: "string option"
  location_endpoint_url :: "string option"

record file_upload =
  key :: string
  file_size :: nat

text \<open>
  The outcome of the form \<^verbatim>\<open>UploadByDownloadForm\<close> and of the download that follows
  it: the form raises \<^verbatim>\<open>UploadByDownloadRemoteError\<close>, the form is invalid (with the
  message of its first error), the download answers with another status than 200, or
  the archive arrives, with the cleaned URL, name, size and redirect URLs.
\<close>

datatype 'f download_outcome =
    RemoteError string
  | FormInvalid string
  | Non200 string
  | Downloaded string string nat "string list" 'f

text \<open>
  A unit of work is a key and a member; its result is the exception it raised or what
  \<^verbatim>\<open>upload_file_upload\<close> returned.  A future is the key it was submitted under, from
  \<^verbatim>\<open>future_to_key\<close>, with its result.
\<close>

type_synonym task = "string \<times> member"
type_synonym task_result = "string + file_upload option"
type_synonym future = "string \<times> task_result"

text \<open>
  The code of the repository and of its libraries that is not among the sources, taken
  as parameters: the class of characters illegal in a key, \<^verbatim>\<open>fnmatch.fnmatch\<close>,
  \<^verbatim>\<open>dump_and_extract\<close> (working directory, file, name), the form and the download, the
  URL parsing of \<^verbatim>\<open>StorageBucket\<close> and its \<^verbatim>\<open>exists\<close>, \<^verbatim>\<open>upload_file_upload\<close> (storage,
  bucket name, key, member), the thread pool (number of workers, the work of one task,
  the tasks submitted, storage) and the order in which \<^verbatim>\<open>as_completed\<close> hands out the
  futures.  \<open>'s\<close> is the state of the object storage.
\<close>

record ('f, 's) collaborators =
  illegal_key_character :: "char \<Rightarrow> bool"
  fnmatch :: "string \<Rightarrow> string \<Rightarrow> bool"
  dump_and_extract :: "string \<Rightarrow> 'f \<Rightarrow> string \<Rightarrow> extract_error + member list"
  download_by_url :: "(string \<rightharpoonup> string) \<Rightarrow> 'f download_outcome"
  parse_url :: "string \<Rightarrow> bucket_location"
  bucket_exists :: "storage_bucket \<Rightarrow> bool"
  upload_file_upload :: "'s \<Rightarrow> string \<Rightarrow> string \<Rightarrow> member \<Rightarrow> task_result \<times> 's"
  thread_pool_executor ::
    "nat \<Rightarrow> ('s \<Rightarrow> task \<Rightarrow> task_result \<times> 's) \<Rightarrow> task list \<Rightarrow> 's \<Rightarrow> task_result list \<times> 's"
  as_completed :: "future list \<Rightarrow> future list"

subsection \<open>Receiving and extracting the archive\<close>

record acquired =
  file_listing :: "member list"
  archive_name :: string
  acquired_size :: nat
  acquired_url :: "string option"
  acquired_redirect_urls :: "string list option"

definition extract_error_response :: "extract_error \<Rightarrow> json_response" where
  \<comment> \<open>The three \<^verbatim>\<open>except\<close> clauses of \<^verbatim>\<open>upload_archive\<close>.\<close>
  "extract_error_response e =
     (case e of
        BadZipfile msg \<Rightarrow> JsonResponse (ErrorBody msg) 400
      | UnrecognizedArchiveFileExtension ext \<Rightarrow>
          JsonResponse
            (ErrorBody (''Unrecognized archive file extension '' @ [CHR 0x22] @ ext @ [CHR 0x22]))
            400
      | DuplicateFileDifferentSize msg \<Rightarrow> JsonResponse (ErrorBody msg) 400)"

definition acquire ::
  "('f, 's) collaborators \<Rightarrow> 'f request \<Rightarrow> string \<Rightarrow> json_response + acquired" where
  \<comment> \<open>The \<^verbatim>\<open>try\<close> block of \<^verbatim>\<open>upload_archive\<close>: the first uploaded file, or else the
      download from the URL of the POST data.  \<open>Inl\<close> is a response returned early.\<close>
  "acquire co request upload_dir =
     (case FILES request of
        (nm, upload) # others \<Rightarrow>
          (case dump_and_extract co upload_dir (upload_content upload) nm of
             Inl e \<Rightarrow> Inl (extract_error_response e)
           | Inr listing \<Rightarrow>
               Inr \<lparr>file_listing = listing, archive_name = nm,
                    acquired_size = upload_size upload, acquired_url = None,
                    acquired_redirect_urls = None\<rparr>)
      | [] \<Rightarrow>
          (if (case POST request ''url'' of None \<Rightarrow> False | Some u \<Rightarrow> u \<noteq> [])
           then (case download_by_url co (POST request) of
                   RemoteError msg \<Rightarrow> Inl (JsonResponse (ErrorBody msg) 500)
                 | FormInvalid msg \<Rightarrow> Inl (JsonResponse (ErrorBody msg) 400)
                 | Non200 u \<Rightarrow>
                     Inl (JsonResponse
                            (ErrorBody (''non-200 status code when retrieving '' @ u)) 400)
                 | Downloaded u nm sz redirects content \<Rightarrow>
                     (case dump_and_extract co upload_dir content nm of
                        Inl e \<Rightarrow> Inl (extract_error_response e)
                      | Inr listing \<Rightarrow>
                          Inr \<lparr>file_listing = listing, archive_name = nm,
                               acquired_size = sz, acquired_url = Some u,
                               acquired_redirect_urls =
                                 (if redirects = [] then None else Some redirects)\<rparr>))
           else Inl (JsonResponse
                       (ErrorBody ''Must be multipart form data with at least one file'') 400)))"

subsection \<open>Uploading the members\<close>

fun synchronous_executor ::
  "('s \<Rightarrow> task \<Rightarrow> task_result \<times> 's) \<Rightarrow> task list \<Rightarrow> 's \<Rightarrow> task_result list \<times> 's" where
  \<comment> \<open>\<^verbatim>\<open>SynchronousExecutor\<close>: \<^verbatim>\<open>submit\<close> runs the task at once, so the tasks run one
      after the other in the order of their submission.\<close>
  "synchronous_executor work [] storage = ([], storage)"
| "synchronous_executor work (t # ts) storage =
     (case work storage t of
        (r, storage') \<Rightarrow>
          (case synchronous_executor work ts storage' of
             (rs, storage'') \<Rightarrow> (r # rs, storage'')))"

fun collect_results ::
  "(string \<rightharpoonup> string list) \<Rightarrow> future list \<Rightarrow> nat \<Rightarrow> string list list \<Rightarrow> string list
     \<Rightarrow> exn + nat \<times> string list list \<times> string list" where
  \<comment> \<open>The loop over \<^verbatim>\<open>as_completed\<close>, with \<^verbatim>\<open>file_uploads_created\<close>,
      \<^verbatim>\<open>uploaded_symbol_keys\<close> and \<^verbatim>\<open>skipped_keys\<close> as accumulators.\<close>
  "collect_results key_to_symbol_keys [] created symbol_keys skipped =
     Inr (created, symbol_keys, skipped)"
| "collect_results key_to_symbol_keys ((key_name, result) # futures) created symbol_keys skipped =
     (case result of
        Inl e \<Rightarrow> Inl (UploadError e)
      | Inr (Some file_upload) \<Rightarrow>
          (case key_to_symbol_keys (key file_upload) of
             None \<Rightarrow> Inl (KeyError (key file_upload))
           | Some symbol_key \<Rightarrow>
               collect_results key_to_symbol_keys futures (created + 1)
                 (symbol_keys @ [symbol_key]) skipped)
      | Inr None \<Rightarrow>
          collect_results key_to_symbol_keys futures created symbol_keys
            (skipped @ [key_name]))"

record upload_outcome =
  outcome_ignored_keys :: "string list"
  outcome_submitted :: "task list"
  outcome_created :: nat
  outcome_symbol_keys :: "string list list"
  outcome_skipped_keys :: "string list"

definition upload_members ::
  "settings \<Rightarrow> ('f, 's) collaborators \<Rightarrow> string \<Rightarrow> string \<Rightarrow> member list \<Rightarrow> 's
     \<Rightarrow> (exn + upload_outcome) \<times> 's" where
  \<comment> \<open>The \<^verbatim>\<open>with thread_pool as executor\<close> block of \<^verbatim>\<open>upload_archive\<close>, for the bucket
      name and the key prefix given.\<close>
  "upload_members st co bucket key_prefix listing storage =
     (let ignored = map name (filter (\<lambda>m. ignore_member_file (name m)) listing);
          tasks = map (\<lambda>m. (os_path_join key_prefix (name m), m))
                    (filter (\<lambda>m. \<not> ignore_member_file (name m)) listing);
          key_to_symbol_keys =
            fold (\<lambda>(key_name, m) d. d(key_name \<mapsto> take 2 (str_split (CHR ''/'') (name m))))
              tasks Map.empty;
          work = (\<lambda>s (key_name, m). upload_file_upload co s bucket key_name m);
          executor =
            (if SYNCHRONOUS_UPLOAD_FILE_UPLOAD st then synchronous_executor
             else thread_pool_executor co (UPLOAD_FILE_UPLOAD_MAX_WORKERS st))
      in case executor work tasks storage of
           (results, storage') \<Rightarrow>
             (case collect_results key_to_symbol_keys
                     (as_completed co (zip (map fst tasks) results)) 0 [] [] of
                Inl e \<Rightarrow> (Inl e, storage')
              | Inr (created, symbol_keys, skipped) \<Rightarrow>
                  (Inr \<lparr>outcome_ignored_keys = ignored, outcome_submitted = tasks,
                        outcome_created = created, outcome_symbol_keys = symbol_keys,
                        outcome_skipped_keys = skipped\<rparr>,
                   storage')))"

subsection \<open>The view\<close>

definition is_space_char :: "char \<Rightarrow> bool" where
  \<comment> \<open>\<^verbatim>\<open>str.isspace\<close> on U+0000 to U+00FF.\<close>
  "is_space_char c =
     (let n = (of_char c :: nat) in
      (9 \<le> n \<and> n \<le> 13) \<or> (28 \<le> n \<and> n \<le> 32) \<or> n = 133 \<or> n = 160)"

definition strip :: "string \<Rightarrow> string" where
  \<comment> \<open>\<^verbatim>\<open>s.strip()\<close>\<close>
  "strip s = rev (dropWhile is_space_char (rev (dropWhile is_space_char s)))"

definition upload_archive ::
  "settings \<Rightarrow> ('f, 's) collaborators \<Rightarrow> 'f request \<Rightarrow> string \<Rightarrow> 's
     \<Rightarrow> (exn + json_response) \<times> 's \<times> upload_row option" where
  \<comment> \<open>The result is the response or the exception that leaves the view, the object
      storage afterwards, and the row of the \<^verbatim>\<open>Upload\<close> table if one was created.\<close>
  "upload_archive st co request upload_dir storage =
     (case acquire co request upload_dir of
        Inl response \<Rightarrow> (Inr response, storage, None)
      | Inr acq \<Rightarrow>
          (case check_symbols_archive_file_listing st (illegal_key_character co)
                  (file_listing acq) of
             Some error \<Rightarrow> (Inr (JsonResponse (ErrorBody (strip error)) 400), storage, None)
           | None \<Rightarrow>
               (let is_try_upload = POST request ''try'';
                    preferred_bucket_name = POST request ''bucket_name''
                in case get_bucket_info st (fnmatch co) (request_user request)
                          (map_option TryStr is_try_upload) preferred_bucket_name of
                     Inl (NoPossibleBucketName preferred) \<Rightarrow>
                       (Inr (JsonResponse (ErrorBody ''No valid bucket'') 403), storage, None)
                   | Inr bucket_info \<Rightarrow>
                       (let is_try_upload =
                              (case is_try_upload of
                                 None \<Rightarrow> truthy (try_symbols bucket_info)
                               | Some t \<Rightarrow> t \<noteq> []);
                            location = parse_url co (url bucket_info)
                        in if \<not> bucket_exists co bucket_info
                           then (Inl (ImproperlyConfigured bucket_info), storage, None)
                           else
                             (let key_prefix =
                                    (if location_prefix location \<noteq> []
                                     then location_prefix location @ ''/'' @ SYMBOL_FILE_PREFIX st
                                     else SYMBOL_FILE_PREFIX st);
                                  upload_obj =
                                    \<lparr>uploader = email (request_user request),
                                     filename = archive_name acq,
                                     bucket_name = location_name location,
                                     bucket_region = location_region location,
                                     bucket_endpoint_url = location_endpoint_url location,
                                     archive_size = acquired_size acq,
                                     download_url = acquired_url acq,
                                     redirect_urls = acquired_redirect_urls acq,
                                     content_hash = content_hash_of (file_listing acq),
                                     upload_try_symbols = is_try_upload,
                                     skipped_keys = None,
                                     ignored_keys = None,
                                     completed = False\<rparr>
                              in case upload_members st co (location_name location) key_prefix
                                        (file_listing acq) storage of
                                   (Inl e, storage') \<Rightarrow> (Inl e, storage', Some upload_obj)
                                 | (Inr outcome, storage') \<Rightarrow>
                                     (Inr (JsonResponse (UploadBody upload_obj) 201),
                                      storage',
                                      Some (upload_obj
                                        \<lparr>skipped_keys :=
                                           (if outcome_skipped_keys outcome = [] then None
                                            else Some (outcome_skipped_keys outcome)),
                                         ignored_keys :=
                                           (if outcome_ignored_keys outcome = [] then None
                                            else Some (outcome_ignored_keys outcome)),
                                         completed := True\<rparr>)))))))"

subsection \<open>The collaborators the specification describes\<close>

text \<open>
  The object storage of the model: the size of the object stored under a bucket name
  and a key.
\<close>

type_synonym object_store = "string \<times> string \<rightharpoonup> nat"

definition upload_file_upload_spec ::
  "object_store \<Rightarrow> string \<Rightarrow> string \<Rightarrow> member \<Rightarrow> task_result \<times> object_store" where
  \<comment> \<open>Modelled from the spec: \<^verbatim>\<open>tecken.upload.utils.upload_file_upload\<close> is not among the
      sources.  The spec, 4.4: check existence and size in storage at the target; if an
      object with identical key and identical size exists, the outcome is Skipped;
      otherwise upload the member's bytes and the outcome is Created.\<close>
  "upload_file_upload_spec storage bucket key_name m =
     (if storage (bucket, key_name) = Some (fsize m) then (Inr None, storage)
      else (Inr (Some \<lparr>key = key_name, file_size = fsize m\<rparr>),
            storage((bucket, key_name) \<mapsto> fsize m)))"

text \<open>
  An archive as it is received: bytes that are no zip archive, with the decoder's
  message, or the entries of a zip archive, each a name and a size.
\<close>

datatype archive = Corrupt string | Zip "(string \<times> nat) list"

definition conflicting :: "(string \<times> nat) list \<Rightarrow> string \<times> nat \<Rightarrow> bool" where
  \<comment> \<open>Another entry of the archive has the name of this one and a different size.\<close>
  "conflicting entries e = (\<exists>e' \<in> set entries. fst e' = fst e \<and> snd e' \<noteq> snd e)"

definition dump_and_extract_spec ::
  "string \<Rightarrow> archive \<Rightarrow> string \<Rightarrow> extract_error + member list" where
  \<comment> \<open>Modelled from the spec: \<^verbatim>\<open>tecken.upload.utils.dump_and_extract\<close> is not among the
      sources.  The spec, 4.1: the archive type follows from the declared name's
      extension, and only zip is supported; malformed bytes fail with the decoder's
      message; two members that extract to the same name with different sizes fail with
      the duplicate-member conflict, while the same name with the same size is one
      harmless duplicate entry; every member is extracted to the working directory.  The
      conflict carries the name as its message.\<close>
  "dump_and_extract_spec root_dir a nm =
     (if \<not> endswith nm ''.zip''
      then Inl (UnrecognizedArchiveFileExtension
                  (rev (takeWhile (\<lambda>c. c \<noteq> CHR ''.'') (rev nm))))
      else (case a of
              Corrupt msg \<Rightarrow> Inl (BadZipfile msg)
            | Zip entries \<Rightarrow>
                (case List.find (conflicting entries) entries of
                   Some e \<Rightarrow> Inl (DuplicateFileDifferentSize (fst e))
                 | None \<Rightarrow>
                     Inr (map (\<lambda>e. \<lparr>name = fst e, fsize = snd e,
                                    path = os_path_join root_dir (fst e)\<rparr>)
                            (remdups entries)))))"

text \<open>
  The names the validation is meant to let through, in the words of the specification:
  three segments with a hexadecimal middle segment and no illegal character in the
  outer two, a single segment that ends in \<^verbatim>\<open>-symbols.txt\<close> whatever the case of its
  letters, or a last segment that is an ignorable file name.
\<close>

definition recognized_name :: "(char \<Rightarrow> bool) \<Rightarrow> string \<Rightarrow> bool" where
  "recognized_name illegal n =
     (let segments = str_split (CHR ''/'') n in
        (length segments = 3
           \<and> (\<forall>c \<in> set (segments ! 0). \<not> illegal c)
           \<and> (\<forall>c \<in> set (segments ! 2). \<not> illegal c)
           \<and> (\<forall>c \<in> set (segments ! 1). c \<in> set ''0123456789abcdefABCDEF''))
      \<or> (length segments = 1 \<and> endswith (lower n) ''-symbols.txt'')
      \<or> last segments \<in> set ignorable_filenames)"

text \<open>
  A name passes the validation, in the words of the specification, when it contains no
  snippet of the denylist and is of a recognized form.
\<close>

definition acceptable_name :: "settings \<Rightarrow> (char \<Rightarrow> bool) \<Rightarrow> string \<Rightarrow> bool" where
  "acceptable_name st illegal n =
     (\<not> (\<exists>snippet \<in> set (DISALLOWED_SYMBOLS_SNIPPETS st). sublist snippet n)
      \<and> recognized_name illegal n)"

definition name_size :: "member \<Rightarrow> string \<times> nat" where
  \<comment> \<open>The pair of a member that the content hash may depend on.\<close>
  "name_size x = (name x, fsize x)"

text \<open>
  The members left out of the upload, in the words of the specification: the name ends
  in \<^verbatim>\<open>-symbols.txt\<close> whatever the case of its letters, or its base name is an ignorable
  file name.
\<close>

definition ignorable_name :: "string \<Rightarrow> bool" where
  "ignorable_name n =
     (endswith (lower n) ''-symbols.txt'' \<or> os_path_basename n \<in> set ignorable_filenames)"

definition created_result :: "task_result \<Rightarrow> bool" where
  \<comment> \<open>The unit of work wrote an object: the outcome Created.\<close>
  "created_result r = (case r of Inr (Some written) \<Rightarrow> True | _ \<Rightarrow> False)"

definition skipped_result :: "task_result \<Rightarrow> bool" where
  \<comment> \<open>The unit of work found the object in place: the outcome Skipped.\<close>
  "skipped_result r = (r = Inr None)"

definition executor_of ::
  "settings \<Rightarrow> ('f, 's) collaborators
     \<Rightarrow> ('s \<Rightarrow> task \<Rightarrow> task_result \<times> 's) \<Rightarrow> task list \<Rightarrow> 's \<Rightarrow> task_result list \<times> 's" where
  \<comment> \<open>The executor that \<^verbatim>\<open>upload_archive\<close> picks.\<close>
  "executor_of st co =
     (if SYNCHRONOUS_UPLOAD_FILE_UPLOAD st then synchronous_executor
      else thread_pool_executor co (UPLOAD_FILE_UPLOAD_MAX_WORKERS st))"

subsection \<open>Sample configuration and archives\<close>

definition example_settings :: settings where
  "example_settings =
     \<lparr>DISALLOWED_SYMBOLS_SNIPPETS = [''evil''],
      UPLOAD_DEFAULT_URL = ''https://s3.example.com/public/prefix/'',
      UPLOAD_TRY_SYMBOLS_URL = ''https://s3.example.com/try/prefix/'',
      UPLOAD_URL_EXCEPTIONS = [(''*@peterbe.com'', ''https://s3.example.com/private/prefix/'')],
      SYMBOL_FILE_PREFIX = ''v1'',
      SYNCHRONOUS_UPLOAD_FILE_UPLOAD = True,
      UPLOAD_FILE_UPLOAD_MAX_WORKERS = 0\<rparr>"

definition extracted :: "string \<Rightarrow> nat \<Rightarrow> member" where
  \<comment> \<open>A member as the extraction lists it, under a working directory.\<close>
  "extracted n s = \<lparr>name = n, fsize = s, path = ''/tmp/upload/'' @ n\<rparr>"

definition is_space :: "char \<Rightarrow> bool" where
  "is_space c = (c = CHR '' '')"

definition is_backslash :: "char \<Rightarrow> bool" where
  "is_backslash c = (c = CHR 0x5C)"

fun wildcard_match :: "string \<Rightarrow> string \<Rightarrow> bool" where
  \<comment> \<open>A pattern with \<^verbatim>\<open>*\<close> and \<^verbatim>\<open>?\<close> against a name: a sample of \<^verbatim>\<open>fnmatch\<close>.\<close>
  "wildcard_match [] s = (s = [])"
| "wildcard_match (p # ps) [] = (p = CHR ''*'' \<and> wildcard_match ps [])"
| "wildcard_match (p # ps) (c # cs) =
     (if p = CHR ''*'' then wildcard_match ps (c # cs) \<or> wildcard_match (p # ps) cs
      else (p = CHR ''?'' \<or> p = c) \<and> wildcard_match ps cs)"

definition example_fnmatch :: "string \<Rightarrow> string \<Rightarrow> bool" where
  "example_fnmatch nm pattern = wildcard_match pattern nm"

definition example_collaborators :: "(archive, object_store) collaborators" where
  "example_collaborators =
     \<lparr>illegal_key_character = is_space,
      fnmatch = example_fnmatch,
      dump_and_extract = dump_and_extract_spec,
      download_by_url = (\<lambda>post. FormInvalid ''This field is required.''),
      parse_url = (\<lambda>u. \<lparr>location_name = u, location_prefix = [],
                          location_region = None, location_endpoint_url = None\<rparr>),
      bucket_exists = (\<lambda>b. True),
      upload_file_upload = upload_file_upload_spec,
      thread_pool_executor = (\<lambda>workers. synchronous_executor),
      as_completed = rev\<rparr>"

definition uploader_with :: "string \<Rightarrow> string list \<Rightarrow> user" where
  \<comment> \<open>A user who is no superuser, with an address and the permissions listed.\<close>
  "uploader_with address perms =
     \<lparr>email = address, is_superuser = False, has_perm = (\<lambda>perm. perm \<in> set perms)\<rparr>"

definition example_request ::
  "user \<Rightarrow> (string \<times> string) list \<Rightarrow> (string \<times> nat) list \<Rightarrow> archive request" where
  \<comment> \<open>A request of the user with the POST data given and one file, \<^verbatim>\<open>symbols.zip\<close>,
      with the entries given.\<close>
  "example_request u post entries =
     \<lparr>FILES = [(''symbols.zip'',
                 \<lparr>upload_size = sum_list (map snd entries), upload_content = Zip entries\<rparr>)],
      POST = map_of post,
      request_user = u\<rparr>"

section \<open>Properties of the string operations\<close>

lemma str_in_iff_sublist: "str_in sub s \<longleftrightarrow> sublist sub s"
  by (induction s) (auto simp: sublist_Cons_right)

lemma str_split_not_Nil: "str_split sep s \<noteq> []"
  by (induction s) (auto split: list.splits)

lemma str_split_no_sep: "sep \<notin> set a \<Longrightarrow> str_split sep a = [a]"
  by (induction a) auto

lemma str_split_append:
  "sep \<notin> set a \<Longrightarrow> str_split sep (a @ sep # r) = a # str_split sep r"
  by (induction a) auto

lemma char_eq_code: "c = d \<longleftrightarrow> (of_char c :: nat) = of_char d"
  by (simp add: of_char_eq_iff)

lemma not_hex_character_iff:
  "not_hex_character c \<longleftrightarrow> c \<notin> set ''0123456789abcdefABCDEF''"
proof -
  define n where "n = (of_char c :: nat)"
  have "(\<not> ((97 \<le> n \<and> n \<le> 102) \<or> (65 \<le> n \<and> n \<le> 70) \<or> (48 \<le> n \<and> n \<le> 57))) \<longleftrightarrow>
        (n \<notin> {48,49,50,51,52,53,54,55,56,57,97,98,99,100,101,102,65,66,67,68,69,70})"
    by (simp only: insert_iff empty_iff) arith
  then show ?thesis
    unfolding not_hex_character_def less_eq_char_def n_def
    by (simp add: char_eq_code [of c])
qed

section \<open>Validation: what is accepted\<close>

lemmas check_unfold = check_symbols_archive_file_listing.simps(2)

lemma check_Cons:
  "check_symbols_archive_file_listing st illegal (m # ms) =
     (case check_symbols_archive_file_listing st illegal [m] of
        None \<Rightarrow> check_symbols_archive_file_listing st illegal ms
      | Some e \<Rightarrow> Some e)"
  by (simp add: check_unfold Let_def split: option.splits)

lemma three_segments: "length segs = 3 \<Longrightarrow> \<exists>a h b. segs = [a, h, b]"
  by (cases segs; simp; rename_tac xs; case_tac xs; simp; rename_tac ys; case_tac ys; simp)

lemma one_segment: "length segs = 1 \<Longrightarrow> \<exists>a. segs = [a]"
  by (cases segs; simp)

lemma check_single_recognized:
  assumes "recognized_name illegal (name m)"
      and "\<forall>snippet \<in> set (DISALLOWED_SYMBOLS_SNIPPETS st). \<not> sublist snippet (name m)"
  shows "check_symbols_archive_file_listing st illegal [m] = None"
proof -
  have nofind:
    "List.find (\<lambda>snippet. str_in snippet (name m)) (DISALLOWED_SYMBOLS_SNIPPETS st) = None"
    using assms(2) by (simp add: find_None_iff str_in_iff_sublist)
  obtain segs where segs: "str_split (CHR ''/'') (name m) = segs" by simp
  show ?thesis
  proof (cases "last segs \<in> set ignorable_filenames")
    case True
    then show ?thesis using nofind segs by (simp add: check_unfold)
  next
    case False
    consider (three) "length segs = 3" | (one) "length segs = 1"
      | (other) "length segs \<noteq> 3" "length segs \<noteq> 1"
      by blast
    then show ?thesis
    proof cases
      case three
      then obtain a h b where "segs = [a, h, b]" using three_segments by blast
      then show ?thesis
        using assms(1) False nofind segs
        by (auto simp: check_unfold recognized_name_def invalid_key_name_characters_def
            not_hex_characters_findall_def filter_empty_conv not_hex_character_iff)
    next
      case one
      then obtain a where "segs = [a]" using one_segment by blast
      then show ?thesis
        using assms(1) False nofind segs
        by (simp add: check_unfold recognized_name_def)
    next
      case other
      then have "\<not> recognized_name illegal (name m)"
        using False segs by (simp add: recognized_name_def)
      then show ?thesis using assms(1) by simp
    qed
  qed
qed

text \<open>
  Claim C1.  A file listing in which every member's name is of a recognized form, and no
  member's name contains a snippet of \<^verbatim>\<open>DISALLOWED_SYMBOLS_SNIPPETS\<close>, is accepted:
  \<^verbatim>\<open>check_symbols_archive_file_listing\<close> returns \<^verbatim>\<open>None\<close>.
\<close>

theorem check_listing_accepts_recognized:
  assumes "\<forall>m \<in> set file_listings. recognized_name illegal (name m)"
      and "\<forall>m \<in> set file_listings.
             \<forall>snippet \<in> set (DISALLOWED_SYMBOLS_SNIPPETS st). \<not> sublist snippet (name m)"
  shows "check_symbols_archive_file_listing st illegal file_listings = None"
  using assms
proof (induction file_listings)
  case Nil
  show ?case by simp
next
  case (Cons m ms)
  have "check_symbols_archive_file_listing st illegal [m] = None"
    using Cons.prems by (intro check_single_recognized) simp_all
  moreover have "check_symbols_archive_file_listing st illegal ms = None"
    using Cons by simp
  ultimately show ?case
    by (simp add: check_Cons [of st illegal m ms])
qed

theorem check_listing_accepts_recognized_witness:
  "check_symbols_archive_file_listing example_settings is_space
     [extracted ''xul.pdb/ABCD1234/xul.sym'' 100, extracted ''.DS_Store'' 6,
      extracted ''readme-Symbols.TXT'' 20, extracted ''__MACOSX/.DS_Store'' 6] = None"
proof -
  let ?ms = "[extracted ''xul.pdb/ABCD1234/xul.sym'' 100, extracted ''.DS_Store'' 6,
      extracted ''readme-Symbols.TXT'' 20, extracted ''__MACOSX/.DS_Store'' 6]"
  have recognized: "\<forall>m \<in> set ?ms. recognized_name is_space (name m)"
    by code_simp
  have clean: "\<forall>m \<in> set ?ms.
      \<forall>snippet \<in> set (DISALLOWED_SYMBOLS_SNIPPETS example_settings). \<not> sublist snippet (name m)"
    by code_simp
  show ?thesis
    using check_listing_accepts_recognized [OF recognized clean] .
qed

section \<open>Validation: what is reported\<close>

lemma sublist_snippet_error: "sublist snippet (snippet_error snippet)"
  unfolding snippet_error_def sublist_def by (metis append.assoc)

lemma sublist_unrecognized_error: "sublist n (unrecognized_error n)"
  unfolding unrecognized_error_def sublist_def by (metis append.assoc)

lemma sublist_invalid_character_error: "sublist (py_repr n) (invalid_character_error n)"
  unfolding invalid_character_error_def by (rule sublist_append_leftI)

lemma check_single_error:
  assumes "check_symbols_archive_file_listing st illegal [m] = Some msg"
  shows "(case List.find (\<lambda>snippet. str_in snippet (name m)) (DISALLOWED_SYMBOLS_SNIPPETS st) of
            Some snippet \<Rightarrow> msg = snippet_error snippet
          | None \<Rightarrow> msg = invalid_character_error (name m) \<or> msg = unrecognized_error (name m))"
  using assms by (auto simp: check_unfold Let_def split: option.splits if_splits)

lemma check_first_violation:
  assumes "check_symbols_archive_file_listing st illegal ms = Some msg"
  shows "\<exists>pre m post. ms = pre @ m # post
           \<and> check_symbols_archive_file_listing st illegal pre = None
           \<and> check_symbols_archive_file_listing st illegal [m] = Some msg"
  using assms
proof (induction ms)
  case Nil
  then show ?case by simp
next
  case (Cons m ms)
  show ?case
  proof (cases "check_symbols_archive_file_listing st illegal [m]")
    case None
    then have "check_symbols_archive_file_listing st illegal ms = Some msg"
      using Cons.prems check_Cons [of st illegal m ms] by simp
    then obtain pre m' post where *: "ms = pre @ m' # post"
      "check_symbols_archive_file_listing st illegal pre = None"
      "check_symbols_archive_file_listing st illegal [m'] = Some msg"
      using Cons.IH by blast
    have "check_symbols_archive_file_listing st illegal (m # pre) = None"
      using None *(2) check_Cons [of st illegal m pre] by simp
    then show ?thesis using * by (metis append_Cons)
  next
    case (Some e)
    then have "e = msg" using Cons.prems check_Cons [of st illegal m ms] by simp
    then have "m # ms = [] @ m # ms \<and> check_symbols_archive_file_listing st illegal [] = None
       \<and> check_symbols_archive_file_listing st illegal [m] = Some msg"
      using Some by simp
    then show ?thesis by blast
  qed
qed

lemma check_snippet_rejected:
  assumes "m \<in> set ms" "snippet \<in> set (DISALLOWED_SYMBOLS_SNIPPETS st)"
    "sublist snippet (name m)"
  shows "check_symbols_archive_file_listing st illegal ms \<noteq> None"
  using assms(1)
proof (induction ms)
  case Nil
  then show ?case by simp
next
  case (Cons x xs)
  show ?case
  proof (cases "x = m")
    case True
    have "List.find (\<lambda>s. str_in s (name m)) (DISALLOWED_SYMBOLS_SNIPPETS st) \<noteq> None"
      using assms(2,3) by (auto simp: find_None_iff str_in_iff_sublist)
    then show ?thesis using True by (auto simp: check_unfold Let_def split: option.splits)
  next
    case False
    then have "check_symbols_archive_file_listing st illegal xs \<noteq> None"
      using Cons by simp
    then show ?thesis
      using check_Cons [of st illegal x xs] by (simp split: option.splits)
  qed
qed

lemma find_str_in_sublist:
  "List.find (\<lambda>snippet. str_in snippet n) xs = List.find (\<lambda>snippet. sublist snippet n) xs"
  by (simp add: str_in_iff_sublist)

lemma check_single_exact:
  "check_symbols_archive_file_listing st illegal [m] =
     (case List.find (\<lambda>snippet. sublist snippet (name m)) (DISALLOWED_SYMBOLS_SNIPPETS st) of
        Some snippet \<Rightarrow> Some (snippet_error snippet)
      | None \<Rightarrow>
          (let segments = str_split (CHR ''/'') (name m) in
           if recognized_name illegal (name m) then None
           else if length segments = 3
                   \<and> ((\<exists>c \<in> set (segments ! 0). illegal c) \<or> (\<exists>c \<in> set (segments ! 2). illegal c))
           then Some (invalid_character_error (name m))
           else Some (unrecognized_error (name m))))"
proof (cases "List.find (\<lambda>snippet. sublist snippet (name m)) (DISALLOWED_SYMBOLS_SNIPPETS st)")
  case (Some snippet)
  then show ?thesis
    by (simp add: check_unfold find_str_in_sublist)
next
  case None
  obtain segs where segs: "str_split (CHR ''/'') (name m) = segs" by simp
  consider (ignorable) "last segs \<in> set ignorable_filenames"
    | (three) "last segs \<notin> set ignorable_filenames" "length segs = 3"
    | (one) "last segs \<notin> set ignorable_filenames" "length segs = 1"
    | (other) "last segs \<notin> set ignorable_filenames" "length segs \<noteq> 3" "length segs \<noteq> 1"
    by blast
  then show ?thesis
  proof cases
    case ignorable
    then show ?thesis
      using None segs by (simp add: check_unfold find_str_in_sublist recognized_name_def)
  next
    case three
    then show ?thesis
      using None segs
      by (auto simp: check_unfold find_str_in_sublist recognized_name_def Let_def
          invalid_key_name_characters_def not_hex_characters_findall_def filter_empty_conv
          not_hex_character_iff)
  next
    case one
    then show ?thesis
      using None segs by (simp add: check_unfold find_str_in_sublist recognized_name_def)
  next
    case other
    then show ?thesis
      using None segs by (simp add: check_unfold find_str_in_sublist recognized_name_def)
  qed
qed

lemma find_snippet_None:
  "List.find (\<lambda>snippet. sublist snippet n) snippets = None
     \<longleftrightarrow> \<not> (\<exists>snippet \<in> set snippets. sublist snippet n)"
  by (auto simp: find_None_iff)

lemma check_single_None_iff:
  "check_symbols_archive_file_listing st illegal [m] = None \<longleftrightarrow> acceptable_name st illegal (name m)"
proof (cases "List.find (\<lambda>snippet. sublist snippet (name m)) (DISALLOWED_SYMBOLS_SNIPPETS st)")
  case None
  then have "\<not> (\<exists>snippet \<in> set (DISALLOWED_SYMBOLS_SNIPPETS st). sublist snippet (name m))"
    using find_snippet_None [of "name m" "DISALLOWED_SYMBOLS_SNIPPETS st"] by simp
  then show ?thesis
    using None by (simp add: check_single_exact acceptable_name_def Let_def)
next
  case (Some snippet)
  then have "\<exists>snippet \<in> set (DISALLOWED_SYMBOLS_SNIPPETS st). sublist snippet (name m)"
    using find_snippet_None [of "name m" "DISALLOWED_SYMBOLS_SNIPPETS st"] by simp
  then show ?thesis
    using Some by (simp add: check_single_exact acceptable_name_def)
qed

lemma check_None_iff:
  "check_symbols_archive_file_listing st illegal ms = None
     \<longleftrightarrow> (\<forall>m \<in> set ms. acceptable_name st illegal (name m))"
proof (induction ms)
  case Nil
  show ?case by simp
next
  case (Cons m ms)
  show ?case
    using Cons.IH check_single_None_iff [of st illegal m] check_Cons [of st illegal m ms]
    by (auto split: option.splits)
qed

text \<open>
  Claim C2, as amended.  The validation accepts a listing exactly when every member's
  name is acceptable.  Otherwise members are examined in the order of the listing and
  the one message returned is that of the first member in violation: every member before
  it is acceptable, it is not, and the message is decided by this member alone.  If its
  name contains a snippet of \<^verbatim>\<open>DISALLOWED_SYMBOLS_SNIPPETS\<close>, the message is the snippet
  message for the first such snippet in the configured order, and contains it.
  Otherwise, if the name has three segments and an illegal key character in the first
  or the third, the message is the invalid-character message, which contains Python's
  \<^verbatim>\<open>repr\<close> of the name; in every other case it is the unrecognized-pattern message, which
  contains the name as it is.
\<close>

theorem first_violation_reported:
  "(check_symbols_archive_file_listing st illegal ms = None
      \<longleftrightarrow> (\<forall>m \<in> set ms. acceptable_name st illegal (name m)))
   \<and> (check_symbols_archive_file_listing st illegal ms = Some msg \<longrightarrow>
        (\<exists>pre m post. ms = pre @ m # post
           \<and> (\<forall>passed \<in> set pre. acceptable_name st illegal (name passed))
           \<and> \<not> acceptable_name st illegal (name m)
           \<and> (case List.find (\<lambda>snippet. sublist snippet (name m))
                     (DISALLOWED_SYMBOLS_SNIPPETS st) of
                Some snippet \<Rightarrow> msg = snippet_error snippet \<and> sublist snippet msg
              | None \<Rightarrow>
                  (let segments = str_split (CHR ''/'') (name m) in
                   if length segments = 3
                      \<and> ((\<exists>c \<in> set (segments ! 0). illegal c)
                           \<or> (\<exists>c \<in> set (segments ! 2). illegal c))
                   then msg = invalid_character_error (name m)
                        \<and> sublist (py_repr (name m)) msg
                   else msg = unrecognized_error (name m) \<and> sublist (name m) msg))))"
proof (intro conjI impI)
  show "check_symbols_archive_file_listing st illegal ms = None
      \<longleftrightarrow> (\<forall>m \<in> set ms. acceptable_name st illegal (name m))"
    by (rule check_None_iff)
next
  assume "check_symbols_archive_file_listing st illegal ms = Some msg"
  then obtain pre m post where split: "ms = pre @ m # post"
    and before: "check_symbols_archive_file_listing st illegal pre = None"
    and single: "check_symbols_archive_file_listing st illegal [m] = Some msg"
    using check_first_violation by blast
  have passed: "\<forall>passed \<in> set pre. acceptable_name st illegal (name passed)"
    using before by (simp only: check_None_iff)
  have violates: "\<not> acceptable_name st illegal (name m)"
    using single check_single_None_iff [of st illegal m] by simp
  have message: "(case List.find (\<lambda>snippet. sublist snippet (name m))
                     (DISALLOWED_SYMBOLS_SNIPPETS st) of
                Some snippet \<Rightarrow> msg = snippet_error snippet \<and> sublist snippet msg
              | None \<Rightarrow>
                  (let segments = str_split (CHR ''/'') (name m) in
                   if length segments = 3
                      \<and> ((\<exists>c \<in> set (segments ! 0). illegal c)
                           \<or> (\<exists>c \<in> set (segments ! 2). illegal c))
                   then msg = invalid_character_error (name m)
                        \<and> sublist (py_repr (name m)) msg
                   else msg = unrecognized_error (name m) \<and> sublist (name m) msg))"
    using single
    unfolding check_single_exact
    by (auto simp: Let_def sublist_snippet_error sublist_unrecognized_error
        sublist_invalid_character_error split: option.splits if_splits)
  show "\<exists>pre m post. ms = pre @ m # post
           \<and> (\<forall>passed \<in> set pre. acceptable_name st illegal (name passed))
           \<and> \<not> acceptable_name st illegal (name m)
           \<and> (case List.find (\<lambda>snippet. sublist snippet (name m))
                     (DISALLOWED_SYMBOLS_SNIPPETS st) of
                Some snippet \<Rightarrow> msg = snippet_error snippet \<and> sublist snippet msg
              | None \<Rightarrow>
                  (let segments = str_split (CHR ''/'') (name m) in
                   if length segments = 3
                      \<and> ((\<exists>c \<in> set (segments ! 0). illegal c)
                           \<or> (\<exists>c \<in> set (segments ! 2). illegal c))
                   then msg = invalid_character_error (name m)
                        \<and> sublist (py_repr (name m)) msg
                   else msg = unrecognized_error (name m) \<and> sublist (name m) msg))"
    using split passed violates message by blast
qed

theorem first_violation_reported_witness:
  "\<not> (\<forall>m \<in> set [extracted ''bad name!.bin'' 1, extracted ''evil/00/x'' 2].
          acceptable_name example_settings is_space (name m))
   \<and> (\<exists>pre m post.
         [extracted ''bad name!.bin'' 1, extracted ''evil/00/x'' 2] = pre @ m # post
         \<and> (\<forall>passed \<in> set pre. acceptable_name example_settings is_space (name passed))
         \<and> \<not> acceptable_name example_settings is_space (name m)
         \<and> (case List.find (\<lambda>snippet. sublist snippet (name m))
                   (DISALLOWED_SYMBOLS_SNIPPETS example_settings) of
              Some snippet \<Rightarrow>
                unrecognized_error ''bad name!.bin'' = snippet_error snippet
                \<and> sublist snippet (unrecognized_error ''bad name!.bin'')
            | None \<Rightarrow>
                (let segments = str_split (CHR ''/'') (name m) in
                 if length segments = 3
                    \<and> ((\<exists>c \<in> set (segments ! 0). is_space c)
                         \<or> (\<exists>c \<in> set (segments ! 2). is_space c))
                 then unrecognized_error ''bad name!.bin'' = invalid_character_error (name m)
                      \<and> sublist (py_repr (name m)) (unrecognized_error ''bad name!.bin'')
                 else unrecognized_error ''bad name!.bin'' = unrecognized_error (name m)
                      \<and> sublist (name m) (unrecognized_error ''bad name!.bin''))))"
proof -
  let ?ms = "[extracted ''bad name!.bin'' 1, extracted ''evil/00/x'' 2]"
  have fails: "check_symbols_archive_file_listing example_settings is_space ?ms
      = Some (unrecognized_error ''bad name!.bin'')"
    by code_simp
  note reported = first_violation_reported
      [of example_settings is_space ?ms "unrecognized_error ''bad name!.bin''"]
  have "check_symbols_archive_file_listing example_settings is_space ?ms = None
      \<longleftrightarrow> (\<forall>m \<in> set ?ms. acceptable_name example_settings is_space (name m))"
    using reported by (rule conjunct1)
  then have rejected: "\<not> (\<forall>m \<in> set ?ms. acceptable_name example_settings is_space (name m))"
    using fails by simp
  have first: "\<exists>pre m post.
         ?ms = pre @ m # post
         \<and> (\<forall>passed \<in> set pre. acceptable_name example_settings is_space (name passed))
         \<and> \<not> acceptable_name example_settings is_space (name m)
         \<and> (case List.find (\<lambda>snippet. sublist snippet (name m))
                   (DISALLOWED_SYMBOLS_SNIPPETS example_settings) of
              Some snippet \<Rightarrow>
                unrecognized_error ''bad name!.bin'' = snippet_error snippet
                \<and> sublist snippet (unrecognized_error ''bad name!.bin'')
            | None \<Rightarrow>
                (let segments = str_split (CHR ''/'') (name m) in
                 if length segments = 3
                    \<and> ((\<exists>c \<in> set (segments ! 0). is_space c)
                         \<or> (\<exists>c \<in> set (segments ! 2). is_space c))
                 then unrecognized_error ''bad name!.bin'' = invalid_character_error (name m)
                      \<and> sublist (py_repr (name m)) (unrecognized_error ''bad name!.bin'')
                 else unrecognized_error ''bad name!.bin'' = unrecognized_error (name m)
                      \<and> sublist (name m) (unrecognized_error ''bad name!.bin'')))"
    using reported [THEN conjunct2] fails by (rule mp)
  show ?thesis
    using rejected first by (rule conjI)
qed

text \<open>
  The claim as first stated fails twice.  A member that is not of a recognized form,
  ahead of a member with a denylisted snippet, decides the message, and that message
  does not contain the snippet.  And the invalid-character message quotes the name with
  \<^verbatim>\<open>repr\<close>, so a name with a backslash is not in the message as it is.
\<close>

theorem later_snippet_not_reported:
  "check_symbols_archive_file_listing example_settings is_space
       [extracted ''bad name!.bin'' 1, extracted ''evil/00/x'' 2]
     = Some (unrecognized_error ''bad name!.bin'')
   \<and> ''evil'' \<in> set (DISALLOWED_SYMBOLS_SNIPPETS example_settings)
   \<and> sublist ''evil'' (name (extracted ''evil/00/x'' 2))
   \<and> \<not> sublist ''evil'' (unrecognized_error ''bad name!.bin'')
   \<and> check_symbols_archive_file_listing example_settings is_backslash
       [extracted (CHR ''a'' # CHR 0x5C # ''b/00/c'') 1]
     = Some (invalid_character_error (CHR ''a'' # CHR 0x5C # ''b/00/c''))
   \<and> \<not> sublist (CHR ''a'' # CHR 0x5C # ''b/00/c'')
         (invalid_character_error (CHR ''a'' # CHR 0x5C # ''b/00/c''))"
  by code_simp

section \<open>Bucket resolution\<close>

lemma possible_urls_permitted:
  "map fst (get_possible_bucket_urls st fm u) = permitted_urls st fm u"
proof (cases "is_superuser u")
  case True
  then show ?thesis
    by (simp add: get_possible_bucket_urls_def permitted_urls_def Let_def comp_def
        case_prod_unfold)
next
  case False
  then show ?thesis
    by (simp add: get_possible_bucket_urls_def permitted_urls_def email_matches_def Let_def
        comp_def case_prod_unfold)
qed

lemma find_possible_url:
  "(List.find (\<lambda>(possible_url, visibility). str_in preferred possible_url) urls = None)
     \<longleftrightarrow> \<not> (\<exists>possible \<in> set (map fst urls). sublist preferred possible)"
  by (induction urls) (auto simp: str_in_iff_sublist)

lemma permitted_urls_not_Nil: "permitted_urls st fm u \<noteq> []"
  by (simp add: permitted_urls_def Let_def)

lemma get_bucket_info_preferred_refused:
  assumes "\<not> (\<exists>possible \<in> set (permitted_urls st fm u). sublist preferred possible)"
  shows "get_bucket_info st fm u t (Some preferred) = Inl (NoPossibleBucketName preferred)"
proof -
  have "preferred \<noteq> []"
    using assms permitted_urls_not_Nil [of st fm u]
    by (cases "permitted_urls st fm u") auto
  moreover have "List.find (\<lambda>(possible_url, visibility). str_in preferred possible_url)
      (get_possible_bucket_urls st fm u) = None"
    using assms by (simp add: find_possible_url possible_urls_permitted)
  ultimately show ?thesis
    by (simp add: get_bucket_info_def Let_def)
qed

lemma get_bucket_info_preferred_accepted:
  assumes "\<exists>possible \<in> set (permitted_urls st fm u). sublist preferred possible"
  shows "\<exists>b. get_bucket_info st fm u t (Some preferred) = Inr b"
proof (cases "preferred = []")
  case True
  then show ?thesis by (simp add: get_bucket_info_def Let_def)
next
  case False
  have "List.find (\<lambda>(possible_url, visibility). str_in preferred possible_url)
      (get_possible_bucket_urls st fm u) \<noteq> None"
    using assms by (simp add: find_possible_url possible_urls_permitted)
  then show ?thesis
    using False by (auto simp: get_bucket_info_def Let_def split: option.splits)
qed

lemma upload_archive_no_bucket:
  assumes "acquire co request upload_dir = Inr acq"
      and "check_symbols_archive_file_listing st (illegal_key_character co) (file_listing acq) = None"
      and "get_bucket_info st (fnmatch co) (request_user request)
             (map_option TryStr (POST request ''try'')) (POST request ''bucket_name'')
           = Inl (NoPossibleBucketName preferred)"
  shows "upload_archive st co request upload_dir storage
           = (Inr (JsonResponse (ErrorBody ''No valid bucket'') 403), storage, None)"
  using assms by (simp add: upload_archive_def Let_def)

text \<open>
  Claim C3.  With a preferred bucket name, \<^verbatim>\<open>get_bucket_info\<close> returns a bucket if and
  only if the name occurs in one of the URLs the identity may use; otherwise it raises
  \<^verbatim>\<open>NoPossibleBucketName\<close> with the preferred name.  The URLs that
  \<^verbatim>\<open>get_possible_bucket_urls\<close> lists are the permitted ones: those of the matching
  exception-list entries, all of the exception list for a superuser, or else the public
  default URL alone.  \<^verbatim>\<open>upload_archive\<close> answers the exception with status 403 and the
  message \<^verbatim>\<open>No valid bucket\<close>, and neither stores an object nor creates a row.
\<close>

theorem preferred_bucket_name_resolution:
  "((\<exists>b. get_bucket_info st fm u t (Some preferred) = Inr b)
      \<longleftrightarrow> (\<exists>possible \<in> set (permitted_urls st fm u). sublist preferred possible))
   \<and> (\<not> (\<exists>possible \<in> set (permitted_urls st fm u). sublist preferred possible)
        \<longrightarrow> get_bucket_info st fm u t (Some preferred) = Inl (NoPossibleBucketName preferred))
   \<and> map fst (get_possible_bucket_urls st fm u) = permitted_urls st fm u
   \<and> (acquire co request upload_dir = Inr acq
        \<and> check_symbols_archive_file_listing st (illegal_key_character co) (file_listing acq)
            = None
        \<and> POST request ''bucket_name'' = Some preferred
        \<and> \<not> (\<exists>possible \<in> set (permitted_urls st (fnmatch co) (request_user request)).
                 sublist preferred possible)
        \<longrightarrow> upload_archive st co request upload_dir storage
              = (Inr (JsonResponse (ErrorBody ''No valid bucket'') 403), storage, None))"
proof (intro conjI impI)
  show "(\<exists>b. get_bucket_info st fm u t (Some preferred) = Inr b)
      \<longleftrightarrow> (\<exists>possible \<in> set (permitted_urls st fm u). sublist preferred possible)"
  proof
    assume "\<exists>b. get_bucket_info st fm u t (Some preferred) = Inr b"
    then show "\<exists>possible \<in> set (permitted_urls st fm u). sublist preferred possible"
      using get_bucket_info_preferred_refused [of st fm u preferred t] by fastforce
  next
    assume "\<exists>possible \<in> set (permitted_urls st fm u). sublist preferred possible"
    then show "\<exists>b. get_bucket_info st fm u t (Some preferred) = Inr b"
      by (rule get_bucket_info_preferred_accepted)
  qed
next
  assume "\<not> (\<exists>possible \<in> set (permitted_urls st fm u). sublist preferred possible)"
  then show "get_bucket_info st fm u t (Some preferred) = Inl (NoPossibleBucketName preferred)"
    by (rule get_bucket_info_preferred_refused)
next
  show "map fst (get_possible_bucket_urls st fm u) = permitted_urls st fm u"
    by (rule possible_urls_permitted)
next
  assume *: "acquire co request upload_dir = Inr acq
        \<and> check_symbols_archive_file_listing st (illegal_key_character co) (file_listing acq)
            = None
        \<and> POST request ''bucket_name'' = Some preferred
        \<and> \<not> (\<exists>possible \<in> set (permitted_urls st (fnmatch co) (request_user request)).
                 sublist preferred possible)"
  then have "get_bucket_info st (fnmatch co) (request_user request)
             (map_option TryStr (POST request ''try'')) (POST request ''bucket_name'')
           = Inl (NoPossibleBucketName preferred)"
    using get_bucket_info_preferred_refused
      [of st "fnmatch co" "request_user request" preferred "map_option TryStr (POST request ''try'')"]
    by simp
  with * show "upload_archive st co request upload_dir storage
              = (Inr (JsonResponse (ErrorBody ''No valid bucket'') 403), storage, None)"
    by (intro upload_archive_no_bucket [where acq = acq and preferred = preferred]) simp_all
qed

theorem preferred_bucket_name_resolution_witness:
  "get_bucket_info example_settings example_fnmatch
       (uploader_with ''peterbe@example.com'' [''upload.upload_symbols'']) None (Some ''private'')
     = Inl (NoPossibleBucketName ''private'')
   \<and> upload_archive example_settings example_collaborators
         (example_request (uploader_with ''peterbe@example.com'' [''upload.upload_symbols''])
            [(''bucket_name'', ''private'')] [(''xul.pdb/ABCD1234/xul.sym'', 100)])
         ''/tmp/upload'' Map.empty
     = (Inr (JsonResponse (ErrorBody ''No valid bucket'') 403), Map.empty, None)
   \<and> (\<exists>b. get_bucket_info example_settings example_fnmatch
              (uploader_with ''me@peterbe.com'' [''upload.upload_symbols'']) None (Some ''private'')
            = Inr b)"
proof -
  let ?u = "uploader_with ''peterbe@example.com'' [''upload.upload_symbols'']"
  let ?v = "uploader_with ''me@peterbe.com'' [''upload.upload_symbols'']"
  let ?request = "example_request ?u [(''bucket_name'', ''private'')]
                    [(''xul.pdb/ABCD1234/xul.sym'', 100)]"
  let ?acq = "\<lparr>file_listing =
                  [\<lparr>name = ''xul.pdb/ABCD1234/xul.sym'', fsize = 100,
                    path = ''/tmp/upload/xul.pdb/ABCD1234/xul.sym''\<rparr>],
                archive_name = ''symbols.zip'', acquired_size = 100, acquired_url = None,
                acquired_redirect_urls = None\<rparr>"
  have refused: "\<not> (\<exists>possible \<in> set (permitted_urls example_settings example_fnmatch ?u).
                       sublist ''private'' possible)"
    by code_simp
  have accepted: "\<exists>possible \<in> set (permitted_urls example_settings example_fnmatch ?v).
                     sublist ''private'' possible"
    by code_simp
  have acquired: "acquire example_collaborators ?request ''/tmp/upload'' = Inr ?acq"
    by code_simp
  have valid: "check_symbols_archive_file_listing example_settings
                 (illegal_key_character example_collaborators) (file_listing ?acq) = None"
    by code_simp
  have posted: "POST ?request ''bucket_name'' = Some ''private''"
    by code_simp
  have fm: "fnmatch example_collaborators = example_fnmatch"
    by (simp add: example_collaborators_def)
  have who: "request_user ?request = ?u"
    by (simp add: example_request_def)
  note thm1 = preferred_bucket_name_resolution
      [of example_settings example_fnmatch ?u None "''private''" example_collaborators
          ?request "''/tmp/upload''" ?acq Map.empty]
  note thm2 = preferred_bucket_name_resolution
      [of example_settings example_fnmatch ?v None "''private''" example_collaborators
          ?request "''/tmp/upload''" ?acq Map.empty]
  show ?thesis
    using thm1 thm2 refused accepted acquired valid posted
    unfolding fm who
    by blast
qed

lemma lower_char_idem: "lower_char (lower_char c) = lower_char c"
proof -
  define n where "n = (of_char c :: nat)"
  have "n < 256" unfolding n_def by simp
  then show ?thesis
    unfolding lower_char_def Let_def n_def [symmetric]
    by (auto simp: n_def [symmetric])
qed

lemma lower_idem: "lower (lower s) = lower s"
  by (simp add: lower_def lower_char_idem)

lemma no_exception_lookup:
  assumes "\<forall>entry \<in> set (UPLOAD_URL_EXCEPTIONS st). \<not> email_matches fm u (fst entry)"
  shows "map_of (UPLOAD_URL_EXCEPTIONS st) (lower (email u)) = None"
    and "List.find (\<lambda>(email_or_wildcard, exception_url).
                      fm (lower (email u)) (lower email_or_wildcard))
           (UPLOAD_URL_EXCEPTIONS st) = None"
proof -
  show "map_of (UPLOAD_URL_EXCEPTIONS st) (lower (email u)) = None"
  proof (rule ccontr)
    assume "map_of (UPLOAD_URL_EXCEPTIONS st) (lower (email u)) \<noteq> None"
    then obtain v where "(lower (email u), v) \<in> set (UPLOAD_URL_EXCEPTIONS st)"
      by (auto dest: map_of_SomeD)
    then have "\<not> email_matches fm u (lower (email u))"
      using assms by force
    then show False by (simp add: email_matches_def lower_idem)
  qed
  show "List.find (\<lambda>(email_or_wildcard, exception_url).
                      fm (lower (email u)) (lower email_or_wildcard))
           (UPLOAD_URL_EXCEPTIONS st) = None"
    using assms by (auto simp: find_None_iff email_matches_def)
qed

text \<open>
  Claim C4, as amended.  For an identity whose address matches no entry of the exception
  list, with no preferred bucket name and no try flag given, \<^verbatim>\<open>get_bucket_info\<close> returns
  the bucket of \<^verbatim>\<open>UPLOAD_DEFAULT_URL\<close> when the identity holds \<^verbatim>\<open>upload.upload_symbols\<close>
  and the bucket of \<^verbatim>\<open>UPLOAD_TRY_SYMBOLS_URL\<close> when it does not; the try flag is the negation
  of holding the permission.
\<close>

theorem unlisted_identity_resolution:
  assumes "\<forall>entry \<in> set (UPLOAD_URL_EXCEPTIONS st). \<not> email_matches fm u (fst entry)"
  shows "get_bucket_info st fm u None None =
           Inr (StorageBucket
                  (if has_perm u ''upload.upload_symbols''
                   then UPLOAD_DEFAULT_URL st else UPLOAD_TRY_SYMBOLS_URL st)
                  (TryBool (\<not> has_perm u ''upload.upload_symbols'')))"
  using no_exception_lookup [OF assms]
  by (simp add: get_bucket_info_def Let_def)

theorem unlisted_identity_resolution_witness:
  "get_bucket_info example_settings example_fnmatch
      (uploader_with ''peterbe@example.com'' [''upload.upload_symbols'']) None None
    = Inr (StorageBucket ''https://s3.example.com/public/prefix/'' (TryBool False))"
proof -
  let ?u = "uploader_with ''peterbe@example.com'' [''upload.upload_symbols'']"
  have unlisted: "\<forall>entry \<in> set (UPLOAD_URL_EXCEPTIONS example_settings).
      \<not> email_matches example_fnmatch ?u (fst entry)"
    by code_simp
  have perm: "has_perm ?u ''upload.upload_symbols''"
    by code_simp
  have default: "UPLOAD_DEFAULT_URL example_settings = ''https://s3.example.com/public/prefix/''"
    by (simp add: example_settings_def)
  show ?thesis
    using unlisted_identity_resolution [OF unlisted] perm default by simp
qed

text \<open>
  The claim as first stated has the public default bucket in both cases.  An identity
  without \<^verbatim>\<open>upload.upload_symbols\<close> that matches no exception-list entry gets the try
  bucket.
\<close>

theorem try_only_identity_gets_try_bucket:
  "get_bucket_info example_settings example_fnmatch
      (uploader_with ''peterbe@example.com'' [''upload.upload_try_symbols'']) None None
    = Inr (StorageBucket ''https://s3.example.com/try/prefix/'' (TryBool True))
   \<and> get_bucket_info example_settings example_fnmatch
      (uploader_with ''peterbe@example.com'' [''upload.upload_try_symbols'']) None None
    \<noteq> Inr (StorageBucket (UPLOAD_DEFAULT_URL example_settings) (TryBool True))
   \<and> \<not> (\<exists>entry \<in> set (UPLOAD_URL_EXCEPTIONS example_settings).
           email_matches example_fnmatch
             (uploader_with ''peterbe@example.com'' [''upload.upload_try_symbols'']) (fst entry))"
  by code_simp

section \<open>The try parameter\<close>

lemma get_bucket_info_try_flag:
  assumes "get_bucket_info st fm u t p = Inr b"
  shows "try_symbols b =
           (case t of None \<Rightarrow> TryBool (\<not> has_perm u ''upload.upload_symbols'') | Some v \<Rightarrow> v)"
  using assms
  by (auto simp: get_bucket_info_def Let_def StorageBucket_def
      split: option.splits if_splits prod.splits)

lemma get_bucket_info_unlisted:
  assumes "\<forall>entry \<in> set (UPLOAD_URL_EXCEPTIONS st). \<not> email_matches fm u (fst entry)"
      and "p = None \<or> p = Some []"
      and "get_bucket_info st fm u t p = Inr b"
  shows "url b = (if truthy (try_symbols b) then UPLOAD_TRY_SYMBOLS_URL st
                  else UPLOAD_DEFAULT_URL st)"
  using assms(2,3) no_exception_lookup [OF assms(1)]
  by (auto simp: get_bucket_info_def Let_def StorageBucket_def split: option.splits)

lemma upload_archive_row:
  assumes "upload_archive st co request upload_dir storage = (result, storage', Some row)"
  shows "\<exists>acq bucket_info.
           acquire co request upload_dir = Inr acq
           \<and> check_symbols_archive_file_listing st (illegal_key_character co) (file_listing acq)
               = None
           \<and> get_bucket_info st (fnmatch co) (request_user request)
                (map_option TryStr (POST request ''try'')) (POST request ''bucket_name'')
               = Inr bucket_info
           \<and> bucket_exists co bucket_info
           \<and> upload_try_symbols row =
                (case POST request ''try'' of
                   None \<Rightarrow> truthy (try_symbols bucket_info)
                 | Some raw \<Rightarrow> raw \<noteq> [])
           \<and> bucket_name row = location_name (parse_url co (url bucket_info))
           \<and> content_hash row = content_hash_of (file_listing acq)"
  using assms
  unfolding upload_archive_def Let_def
  by (auto split: sum.splits option.splits bucket_error.splits prod.splits if_splits)

text \<open>
  Claim C10, as amended.  Whenever \<^verbatim>\<open>upload_archive\<close> creates the row of an upload, its try
  flag is the truth value of the raw string posted as \<^verbatim>\<open>try\<close>: any non-empty string makes
  a try upload, the empty string a non-try upload; only when \<^verbatim>\<open>try\<close> is absent is the flag
  the negation of the permission \<^verbatim>\<open>upload.upload_symbols\<close>.  The bucket is the one
  \<^verbatim>\<open>get_bucket_info\<close> resolves with that flag; its URL is \<^verbatim>\<open>UPLOAD_TRY_SYMBOLS_URL\<close> for a
  try upload and \<^verbatim>\<open>UPLOAD_DEFAULT_URL\<close> otherwise, when no exception-list entry matches the
  user and no bucket name is posted.
\<close>

theorem try_parameter_truthiness:
  assumes "upload_archive st co request upload_dir storage = (result, storage', Some row)"
  shows "upload_try_symbols row =
           (case POST request ''try'' of
              Some raw \<Rightarrow> raw \<noteq> []
            | None \<Rightarrow> \<not> has_perm (request_user request) ''upload.upload_symbols'')
         \<and> (\<exists>bucket_info.
               get_bucket_info st (fnmatch co) (request_user request)
                 (map_option TryStr (POST request ''try'')) (POST request ''bucket_name'')
                 = Inr bucket_info
               \<and> truthy (try_symbols bucket_info) = upload_try_symbols row
               \<and> bucket_name row = location_name (parse_url co (url bucket_info))
               \<and> ((\<forall>entry \<in> set (UPLOAD_URL_EXCEPTIONS st).
                       \<not> email_matches (fnmatch co) (request_user request) (fst entry))
                    \<and> (POST request ''bucket_name'' = None
                         \<or> POST request ''bucket_name'' = Some [])
                    \<longrightarrow> url bucket_info =
                          (if upload_try_symbols row then UPLOAD_TRY_SYMBOLS_URL st
                           else UPLOAD_DEFAULT_URL st)))"
proof -
  obtain acq bucket_info where
    resolved: "get_bucket_info st (fnmatch co) (request_user request)
                 (map_option TryStr (POST request ''try'')) (POST request ''bucket_name'')
               = Inr bucket_info"
    and flag: "upload_try_symbols row =
                (case POST request ''try'' of
                   None \<Rightarrow> truthy (try_symbols bucket_info)
                 | Some raw \<Rightarrow> raw \<noteq> [])"
    and named: "bucket_name row = location_name (parse_url co (url bucket_info))"
    using upload_archive_row [OF assms] by blast
  have derived: "try_symbols bucket_info =
      (case POST request ''try'' of
         None \<Rightarrow> TryBool (\<not> has_perm (request_user request) ''upload.upload_symbols'')
       | Some raw \<Rightarrow> TryStr raw)"
    using get_bucket_info_try_flag [OF resolved] by (simp split: option.splits)
  have truth: "truthy (try_symbols bucket_info) = upload_try_symbols row"
    using flag derived by (simp split: option.splits)
  have first: "upload_try_symbols row =
           (case POST request ''try'' of
              Some raw \<Rightarrow> raw \<noteq> []
            | None \<Rightarrow> \<not> has_perm (request_user request) ''upload.upload_symbols'')"
    using flag derived by (simp split: option.splits)
  have routed: "url bucket_info =
                  (if upload_try_symbols row then UPLOAD_TRY_SYMBOLS_URL st
                   else UPLOAD_DEFAULT_URL st)"
    if "(\<forall>entry \<in> set (UPLOAD_URL_EXCEPTIONS st).
            \<not> email_matches (fnmatch co) (request_user request) (fst entry))
        \<and> (POST request ''bucket_name'' = None \<or> POST request ''bucket_name'' = Some [])"
    using get_bucket_info_unlisted [OF _ _ resolved] that truth by simp
  show ?thesis
    using first resolved truth named routed by blast
qed

theorem try_parameter_truthiness_witness:
  "\<exists>row. snd (snd (upload_archive example_settings example_collaborators
          (example_request (uploader_with ''peterbe@example.com'' [''upload.upload_symbols''])
             [(''try'', ''false'')] [(''xul.pdb/ABCD1234/xul.sym'', 100)])
          ''/tmp/upload'' Map.empty)) = Some row
     \<and> upload_try_symbols row
     \<and> bucket_name row = ''https://s3.example.com/try/prefix/''"
proof -
  let ?u = "uploader_with ''peterbe@example.com'' [''upload.upload_symbols'']"
  let ?request = "example_request ?u [(''try'', ''false'')] [(''xul.pdb/ABCD1234/xul.sym'', 100)]"
  let ?run = "upload_archive example_settings example_collaborators ?request
                ''/tmp/upload'' Map.empty"
  have "snd (snd ?run) \<noteq> None"
    by code_simp
  then obtain result storage' row where run: "?run = (result, storage', Some row)"
    by (metis option.exhaust prod.collapse)
  have posted: "POST ?request ''try'' = Some ''false''"
    by code_simp
  have unlisted: "\<forall>entry \<in> set (UPLOAD_URL_EXCEPTIONS example_settings).
      \<not> email_matches (fnmatch example_collaborators) (request_user ?request) (fst entry)"
    by code_simp
  have unpreferred: "POST ?request ''bucket_name'' = None"
    by code_simp
  have try_url: "UPLOAD_TRY_SYMBOLS_URL example_settings = ''https://s3.example.com/try/prefix/''"
    by (simp add: example_settings_def)
  note concl = try_parameter_truthiness [OF run]
  have flag: "upload_try_symbols row"
    using concl posted by simp
  from concl have "\<exists>bucket_info.
       get_bucket_info example_settings (fnmatch example_collaborators) (request_user ?request)
         (map_option TryStr (POST ?request ''try'')) (POST ?request ''bucket_name'')
         = Inr bucket_info
       \<and> truthy (try_symbols bucket_info) = upload_try_symbols row
       \<and> bucket_name row = location_name (parse_url example_collaborators (url bucket_info))
       \<and> ((\<forall>entry \<in> set (UPLOAD_URL_EXCEPTIONS example_settings).
               \<not> email_matches (fnmatch example_collaborators) (request_user ?request)
                  (fst entry))
            \<and> (POST ?request ''bucket_name'' = None \<or> POST ?request ''bucket_name'' = Some [])
            \<longrightarrow> url bucket_info =
                  (if upload_try_symbols row then UPLOAD_TRY_SYMBOLS_URL example_settings
                   else UPLOAD_DEFAULT_URL example_settings))"
    by (rule conjunct2)
  then obtain bucket_info where resolved:
      "get_bucket_info example_settings (fnmatch example_collaborators) (request_user ?request)
         (map_option TryStr (POST ?request ''try'')) (POST ?request ''bucket_name'')
         = Inr bucket_info
       \<and> truthy (try_symbols bucket_info) = upload_try_symbols row
       \<and> bucket_name row = location_name (parse_url example_collaborators (url bucket_info))
       \<and> ((\<forall>entry \<in> set (UPLOAD_URL_EXCEPTIONS example_settings).
               \<not> email_matches (fnmatch example_collaborators) (request_user ?request)
                  (fst entry))
            \<and> (POST ?request ''bucket_name'' = None \<or> POST ?request ''bucket_name'' = Some [])
            \<longrightarrow> url bucket_info =
                  (if upload_try_symbols row then UPLOAD_TRY_SYMBOLS_URL example_settings
                   else UPLOAD_DEFAULT_URL example_settings))"
    ..
  note truth = resolved [THEN conjunct2, THEN conjunct1]
  note named = resolved [THEN conjunct2, THEN conjunct2, THEN conjunct1]
  note routed = resolved [THEN conjunct2, THEN conjunct2, THEN conjunct2]
  have routed_to: "url bucket_info = ''https://s3.example.com/try/prefix/''"
    using routed unlisted unpreferred flag try_url by simp
  have "location_name (parse_url example_collaborators (url bucket_info)) = url bucket_info"
    by (simp add: example_collaborators_def)
  then have "bucket_name row = ''https://s3.example.com/try/prefix/''"
    using named routed_to by simp
  moreover have "snd (snd ?run) = Some row"
    using run by simp
  ultimately show ?thesis
    using flag by simp
qed

text \<open>
  The claim as first stated routes every try upload to the try bucket.  For a user with
  an entry in the exception list, the upload is a try upload and goes to the bucket of
  that entry.
\<close>

theorem try_upload_of_listed_identity:
  "map_option (\<lambda>row. (upload_try_symbols row, bucket_name row))
       (snd (snd (upload_archive example_settings example_collaborators
          (example_request (uploader_with ''me@peterbe.com'' [''upload.upload_try_symbols''])
             [(''try'', ''1'')] [(''xul.pdb/ABCD1234/xul.sym'', 100)])
          ''/tmp/upload'' Map.empty)))
     = Some (True, ''https://s3.example.com/private/prefix/'')
   \<and> get_bucket_info example_settings example_fnmatch
         (uploader_with ''me@peterbe.com'' [''upload.upload_try_symbols''])
         (Some (TryStr ''1'')) None
     = Inr (StorageBucket ''https://s3.example.com/private/prefix/'' (TryStr ''1''))
   \<and> UPLOAD_TRY_SYMBOLS_URL example_settings = ''https://s3.example.com/try/prefix/''
   \<and> location_name (parse_url example_collaborators ''https://s3.example.com/try/prefix/'')
       = ''https://s3.example.com/try/prefix/''"
  by code_simp

section \<open>The content hash\<close>

lemma map_insort_key:
  "map f (insort_key (\<lambda>x. g (f x)) x xs) = insort_key g (f x) (map f xs)"
  by (induction xs) auto

lemma map_sort_key:
  "map f (sort_key (\<lambda>x. g (f x)) xs) = sort_key g (map f xs)"
  by (induction xs) (auto simp: map_insort_key)

lemma sorted_names_by_pairs:
  "map name_size (sort_key name xs) = sort_key fst (map name_size xs)"
proof -
  have "name = (\<lambda>x. fst (name_size x))"
    by (simp add: name_size_def)
  then show ?thesis
    using map_sort_key [of name_size fst xs] by simp
qed

lemma listing_content_by_pairs:
  "listing_content xs =
     str_join [CHR 0x0A]
       (map (\<lambda>p. fst p @ '':'' @ str_nat (snd p)) (sort_key fst (map name_size xs)))"
proof -
  have "map (\<lambda>x. name x @ '':'' @ str_nat (fsize x)) (sort_key name xs)
      = map (\<lambda>p. fst p @ '':'' @ str_nat (snd p)) (map name_size (sort_key name xs))"
    by (simp add: name_size_def)
  then show ?thesis
    unfolding listing_content_def sorted_names_by_pairs by simp
qed

lemma sort_key_fst_permutation:
  fixes ps qs :: "(string \<times> nat) list"
  assumes "mset ps = mset qs" and "inj_on fst (set ps)"
  shows "sort_key fst ps = sort_key fst qs"
proof (rule sort_key_inj_key_eq)
  show "mset ps = mset (sort_key fst qs)"
    using assms(1) by simp
  show "inj_on fst (set ps)"
    by (rule assms(2))
  show "sorted (map fst (sort_key fst qs))"
    by (rule sorted_sort_key)
qed

lemma content_hash_same_pairs:
  assumes "mset (map name_size xs) = mset (map name_size ys)"
      and "\<forall>x \<in> set xs. \<forall>y \<in> set xs. name x = name y \<longrightarrow> fsize x = fsize y"
  shows "content_hash_of xs = content_hash_of ys"
proof -
  have "inj_on fst (set (map name_size xs))"
    unfolding inj_on_def
  proof (intro ballI impI)
    fix p q
    assume "p \<in> set (map name_size xs)" "q \<in> set (map name_size xs)" "fst p = fst q"
    then obtain x y where x: "x \<in> set xs" and y: "y \<in> set xs"
      and p: "p = name_size x" and q: "q = name_size y"
      by auto
    have same_name: "name x = name y"
      using \<open>fst p = fst q\<close> unfolding p q name_size_def by simp
    have "fsize x = fsize y"
      using assms(2) x y same_name by blast
    with same_name show "p = q"
      unfolding p q name_size_def by simp
  qed
  with assms(1)
  have "sort_key fst (map name_size xs) = sort_key fst (map name_size ys)"
    by (rule sort_key_fst_permutation)
  then have "listing_content xs = listing_content ys"
    by (simp only: listing_content_by_pairs)
  then show ?thesis
    by (simp only: content_hash_of_def)
qed

lemma extract_spec_Inr:
  assumes "dump_and_extract_spec root_dir a nm = Inr xs"
  shows "\<exists>entries. a = Zip entries \<and> endswith nm ''.zip''
           \<and> (\<forall>e \<in> set entries. \<not> conflicting entries e)
           \<and> xs = map (\<lambda>e. \<lparr>name = fst e, fsize = snd e, path = os_path_join root_dir (fst e)\<rparr>)
                     (remdups entries)"
  using assms
  unfolding dump_and_extract_spec_def
  by (auto simp: find_None_iff split: if_splits archive.splits option.splits)

lemma extracted_names_determine_sizes:
  assumes "dump_and_extract_spec root_dir a nm = Inr xs"
  shows "\<forall>x \<in> set xs. \<forall>y \<in> set xs. name x = name y \<longrightarrow> fsize x = fsize y"
proof (intro ballI impI)
  fix x y
  assume x: "x \<in> set xs" and y: "y \<in> set xs" and same: "name x = name y"
  obtain entries where clean: "\<forall>e \<in> set entries. \<not> conflicting entries e"
    and xs: "xs = map (\<lambda>e. \<lparr>name = fst e, fsize = snd e, path = os_path_join root_dir (fst e)\<rparr>)
                     (remdups entries)"
    using extract_spec_Inr [OF assms] by blast
  obtain e where e: "e \<in> set entries" "name x = fst e" "fsize x = snd e"
    using x xs by auto
  obtain e' where e': "e' \<in> set entries" "name y = fst e'" "fsize y = snd e'"
    using y xs by auto
  have "\<not> conflicting entries e'"
    using clean e'(1) by blast
  then have "snd e = snd e'"
    using e e' same unfolding conflicting_def by metis
  then show "fsize x = fsize y"
    using e e' by simp
qed

text \<open>
  Claim C9.  The content hash depends on the names and sizes of the extracted members
  only, not on their contents, their paths or their order.  In the listing of an
  extracted archive members of one name have one size, and for such a listing every
  listing with the same pairs of name and size, in any order, gets the same hash.  So
  does every permutation of a listing that the extraction returns.
\<close>

theorem content_hash_permutation:
  "(mset (map name_size xs) = mset (map name_size ys)
      \<and> (\<forall>x \<in> set xs. \<forall>y \<in> set xs. name x = name y \<longrightarrow> fsize x = fsize y)
      \<longrightarrow> content_hash_of xs = content_hash_of ys)
   \<and> (dump_and_extract_spec root_dir a nm = Inr xs \<and> mset ys = mset xs
      \<longrightarrow> content_hash_of ys = content_hash_of xs)"
proof (intro conjI impI)
  assume "mset (map name_size xs) = mset (map name_size ys)
      \<and> (\<forall>x \<in> set xs. \<forall>y \<in> set xs. name x = name y \<longrightarrow> fsize x = fsize y)"
  then show "content_hash_of xs = content_hash_of ys"
    using content_hash_same_pairs by blast
next
  assume *: "dump_and_extract_spec root_dir a nm = Inr xs \<and> mset ys = mset xs"
  then have "\<forall>x \<in> set xs. \<forall>y \<in> set xs. name x = name y \<longrightarrow> fsize x = fsize y"
    using extracted_names_determine_sizes by blast
  moreover have "mset (map name_size xs) = mset (map name_size ys)"
    using * by (metis mset_map)
  ultimately show "content_hash_of ys = content_hash_of xs"
    using content_hash_same_pairs by metis
qed

theorem content_hash_permutation_witness:
  "content_hash_of
     [\<lparr>name = ''xul.pdb/ABCD1234/xul.sym'', fsize = 100, path = ''/tmp/one/xul.sym''\<rparr>,
      \<lparr>name = ''readme-symbols.txt'', fsize = 20, path = ''/tmp/one/readme-symbols.txt''\<rparr>]
   = content_hash_of
     [\<lparr>name = ''readme-symbols.txt'', fsize = 20, path = ''/tmp/two/readme-symbols.txt''\<rparr>,
      \<lparr>name = ''xul.pdb/ABCD1234/xul.sym'', fsize = 100, path = ''/tmp/two/xul.sym''\<rparr>]
   \<and> content_hash_of
       [extracted ''xul.pdb/ABCD1234/xul.sym'' 100, extracted ''readme-symbols.txt'' 20]
     = content_hash_of
       [extracted ''readme-symbols.txt'' 20, extracted ''xul.pdb/ABCD1234/xul.sym'' 100]"
proof -
  let ?xs = "[\<lparr>name = ''xul.pdb/ABCD1234/xul.sym'', fsize = 100, path = ''/tmp/one/xul.sym''\<rparr>,
      \<lparr>name = ''readme-symbols.txt'', fsize = 20, path = ''/tmp/one/readme-symbols.txt''\<rparr>]"
  let ?ys = "[\<lparr>name = ''readme-symbols.txt'', fsize = 20, path = ''/tmp/two/readme-symbols.txt''\<rparr>,
      \<lparr>name = ''xul.pdb/ABCD1234/xul.sym'', fsize = 100, path = ''/tmp/two/xul.sym''\<rparr>]"
  let ?archive = "Zip [(''xul.pdb/ABCD1234/xul.sym'', 100), (''readme-symbols.txt'', 20),
                       (''xul.pdb/ABCD1234/xul.sym'', 100)]"
  let ?listing = "[extracted ''readme-symbols.txt'' 20, extracted ''xul.pdb/ABCD1234/xul.sym'' 100]"
  let ?shuffled = "[extracted ''xul.pdb/ABCD1234/xul.sym'' 100, extracted ''readme-symbols.txt'' 20]"
  have same: "mset (map name_size ?xs) = mset (map name_size ?ys)"
    by (simp add: name_size_def add.commute)
  have consistent: "\<forall>x \<in> set ?xs. \<forall>y \<in> set ?xs. name x = name y \<longrightarrow> fsize x = fsize y"
    by code_simp
  have extracted: "dump_and_extract_spec ''/tmp/upload'' ?archive ''symbols.zip'' = Inr ?listing"
    by code_simp
  have shuffled: "mset ?shuffled = mset ?listing"
    by (simp add: add.commute)
  note hash = content_hash_permutation
  have one: "content_hash_of ?xs = content_hash_of ?ys"
    by (rule hash [of ?xs ?ys, THEN conjunct1, THEN mp]) (rule conjI [OF same consistent])
  have two: "content_hash_of ?shuffled = content_hash_of ?listing"
    by (rule hash [of ?listing ?shuffled "''/tmp/upload''" ?archive "''symbols.zip''",
          THEN conjunct2, THEN mp])
       (rule conjI [OF extracted shuffled])
  show ?thesis
    using one two by (rule conjI)
qed

text \<open>
  The first statement needs its proviso.  \<^verbatim>\<open>sorted\<close> is stable and its key is the name
  alone, so a listing with two members of one name and different sizes, which no
  extraction returns, would hash differently in its two orders.
\<close>

lemma content_hash_depends_on_order:
  "mset [extracted ''a'' 1, extracted ''a'' 2] = mset [extracted ''a'' 2, extracted ''a'' 1]
   \<and> content_hash_of [extracted ''a'' 1, extracted ''a'' 2] = ''b0ffbd0a3e496a07d50e031ebab50a''
   \<and> content_hash_of [extracted ''a'' 2, extracted ''a'' 1] = ''1f716b45d48440e3014fa02c18f733''
   \<and> content_hash_of [extracted ''a'' 1, extracted ''a'' 2]
       \<noteq> content_hash_of [extracted ''a'' 2, extracted ''a'' 1]"
proof -
  have perm: "mset [extracted ''a'' 1, extracted ''a'' 2]
      = mset [extracted ''a'' 2, extracted ''a'' 1]"
    by (simp add: add.commute)
  have one: "content_hash_of [extracted ''a'' 1, extracted ''a'' 2]
      = ''b0ffbd0a3e496a07d50e031ebab50a''"
    by code_simp
  have two: "content_hash_of [extracted ''a'' 2, extracted ''a'' 1]
      = ''1f716b45d48440e3014fa02c18f733''"
    by code_simp
  have "''b0ffbd0a3e496a07d50e031ebab50a'' \<noteq> ''1f716b45d48440e3014fa02c18f733''"
    by simp
  then show ?thesis
    using perm one two by (simp only: simp_thms)
qed

section \<open>The outcome of the uploads\<close>

lemma ignore_member_file_iff: "ignore_member_file n \<longleftrightarrow> ignorable_name n"
  by (simp add: ignore_member_file_def ignorable_name_def)

lemma synchronous_executor_length:
  "synchronous_executor work ts s = (rs, s') \<Longrightarrow> length rs = length ts"
  by (induction ts arbitrary: s rs s') (auto split: prod.splits)

lemma collect_results_Inr:
  assumes "collect_results k2s fs c sks skp = Inr (c', sks', skp')"
  shows "c' = c + length (filter (\<lambda>f. created_result (snd f)) fs)
         \<and> length sks' = length sks + length (filter (\<lambda>f. created_result (snd f)) fs)
         \<and> skp' = skp @ map fst (filter (\<lambda>f. skipped_result (snd f)) fs)
         \<and> (\<forall>f \<in> set fs. created_result (snd f) \<or> skipped_result (snd f))"
  using assms
proof (induction fs arbitrary: c sks skp)
  case Nil
  then show ?case by simp
next
  case (Cons f fs)
  obtain key_name result where f: "f = (key_name, result)" by (cases f)
  show ?case
  proof (cases result)
    case (Inl e)
    then show ?thesis using Cons.prems f by simp
  next
    case (Inr written)
    show ?thesis
    proof (cases written)
      case None
      then have "collect_results k2s fs c sks (skp @ [key_name]) = Inr (c', sks', skp')"
        using Cons.prems f Inr by simp
      from Cons.IH [OF this] show ?thesis
        using f Inr None by (simp add: created_result_def skipped_result_def)
    next
      case (Some file_upload)
      then obtain symbol_key where
        "collect_results k2s fs (c + 1) (sks @ [symbol_key]) skp = Inr (c', sks', skp')"
        using Cons.prems f Inr by (auto split: option.splits)
      from Cons.IH [OF this] show ?thesis
        using f Inr Some by (simp add: created_result_def skipped_result_def)
    qed
  qed
qed

lemma filter_length_mset:
  "mset xs = mset ys \<Longrightarrow> length (filter P xs) = length (filter P ys)"
  by (metis mset_filter size_mset)

lemma filter_map_mset:
  "mset xs = mset ys \<Longrightarrow> mset (map f (filter P xs)) = mset (map f (filter P ys))"
  by (metis mset_filter mset_map)

lemma upload_members_Inr:
  assumes "upload_members st co bucket key_prefix listing storage = (Inr outcome, storage')"
  shows "\<exists>results created symbol_keys skipped.
           executor_of st co (\<lambda>s (key_name, m). upload_file_upload co s bucket key_name m)
               (outcome_submitted outcome) storage = (results, storage')
           \<and> collect_results
                 (fold (\<lambda>(key_name, m) d.
                          d(key_name \<mapsto> take 2 (str_split (CHR ''/'') (name m))))
                    (outcome_submitted outcome) Map.empty)
                 (as_completed co (zip (map fst (outcome_submitted outcome)) results)) 0 [] []
               = Inr (created, symbol_keys, skipped)
           \<and> outcome = \<lparr>outcome_ignored_keys =
                            map name (filter (\<lambda>m. ignore_member_file (name m)) listing),
                          outcome_submitted =
                            map (\<lambda>m. (os_path_join key_prefix (name m), m))
                              (filter (\<lambda>m. \<not> ignore_member_file (name m)) listing),
                          outcome_created = created, outcome_symbol_keys = symbol_keys,
                          outcome_skipped_keys = skipped\<rparr>"
  using assms
  unfolding upload_members_def executor_of_def Let_def
  by (auto split: prod.splits sum.splits)

text \<open>
  Claim C6.  When the upload of the members returns, every member of the listing is in
  exactly one class.  The ignored keys are the names of the members with an ignorable
  name, in the order of the listing, and no unit of work is submitted for them; the
  other members are submitted, one unit of work each, under the key of the prefix joined
  with the name.  Every unit of work ends as Created or as Skipped, the number created
  and the skipped keys count each of them once, and together they are as many as the
  members submitted.  The futures come out of \<^verbatim>\<open>as_completed\<close> once each, in any order, and
  the executor gives one result for every task.
\<close>

theorem every_member_accounted_for:
  assumes run: "upload_members st co bucket key_prefix listing storage = (Inr outcome, storage')"
      and once: "\<forall>futures. mset (as_completed co futures) = mset futures"
      and each: "\<forall>work tasks s. length (fst (executor_of st co work tasks s)) = length tasks"
  shows "outcome_ignored_keys outcome = map name (filter (\<lambda>m. ignorable_name (name m)) listing)
     \<and> outcome_submitted outcome =
         map (\<lambda>m. (os_path_join key_prefix (name m), m))
           (filter (\<lambda>m. \<not> ignorable_name (name m)) listing)
     \<and> (\<exists>results.
           executor_of st co (\<lambda>s (key_name, m). upload_file_upload co s bucket key_name m)
               (outcome_submitted outcome) storage = (results, storage')
           \<and> length results = length (outcome_submitted outcome)
           \<and> (\<forall>r \<in> set results. created_result r \<or> skipped_result r)
           \<and> outcome_created outcome = length (filter created_result results)
           \<and> length (outcome_symbol_keys outcome) = outcome_created outcome
           \<and> mset (outcome_skipped_keys outcome) =
               mset (map fst (filter (\<lambda>f. skipped_result (snd f))
                                (zip (map fst (outcome_submitted outcome)) results))))
     \<and> outcome_created outcome + length (outcome_skipped_keys outcome)
         = length (outcome_submitted outcome)"
proof -
  let ?work = "\<lambda>s (key_name, m). upload_file_upload co s bucket key_name m"
  let ?tasks = "outcome_submitted outcome"
  obtain results created symbol_keys skipped where
    exec: "executor_of st co ?work ?tasks storage = (results, storage')"
    and collected: "collect_results
                 (fold (\<lambda>(key_name, m) d.
                          d(key_name \<mapsto> take 2 (str_split (CHR ''/'') (name m))))
                    ?tasks Map.empty)
                 (as_completed co (zip (map fst ?tasks) results)) 0 [] []
               = Inr (created, symbol_keys, skipped)"
    and outcome: "outcome = \<lparr>outcome_ignored_keys =
                            map name (filter (\<lambda>m. ignore_member_file (name m)) listing),
                          outcome_submitted =
                            map (\<lambda>m. (os_path_join key_prefix (name m), m))
                              (filter (\<lambda>m. \<not> ignore_member_file (name m)) listing),
                          outcome_created = created, outcome_symbol_keys = symbol_keys,
                          outcome_skipped_keys = skipped\<rparr>"
    using upload_members_Inr [OF run] by blast
  let ?futures = "zip (map fst ?tasks) results"
  have len: "length results = length ?tasks"
    using each exec by (metis fst_conv)
  have perm: "mset (as_completed co ?futures) = mset ?futures"
    using once by blast
  note facts = collect_results_Inr [OF collected]
  have results: "map snd ?futures = results"
    using len by simp
  have all: "\<forall>r \<in> set results. created_result r \<or> skipped_result r"
  proof
    fix r assume "r \<in> set results"
    then obtain f where "f \<in> set ?futures" "snd f = r"
      using results by (metis (no_types, lifting) imageE list.set_map)
    then have "f \<in> set (as_completed co ?futures)"
      using perm by (metis set_mset_mset)
    then show "created_result r \<or> skipped_result r"
      using facts \<open>snd f = r\<close> by blast
  qed
  have "created = length (filter (\<lambda>f. created_result (snd f)) ?futures)"
    using facts filter_length_mset [OF perm] by simp
  also have "\<dots> = length (filter created_result (map snd ?futures))"
    by (simp add: filter_map comp_def)
  finally have created: "created = length (filter created_result results)"
    using results by simp
  have symbol_keys: "length symbol_keys = created"
    using facts by simp
  have skipped: "mset skipped = mset (map fst (filter (\<lambda>f. skipped_result (snd f)) ?futures))"
    using facts filter_map_mset [OF perm] by simp
  have "length skipped = length (filter (\<lambda>f. skipped_result (snd f)) ?futures)"
    using skipped by (metis length_map size_mset)
  also have "\<dots> = length (filter skipped_result (map snd ?futures))"
    by (simp add: filter_map comp_def)
  also have "\<dots> = length (filter (\<lambda>r. \<not> created_result r) results)"
    unfolding results
    by (rule arg_cong [where f = length], rule filter_cong)
       (use all in \<open>auto simp: created_result_def skipped_result_def\<close>)
  finally have "created + length skipped = length results"
    using created sum_length_filter_compl [of created_result results] by simp
  then have total: "created + length skipped = length ?tasks"
    using len by simp
  show ?thesis
    using outcome exec len all created symbol_keys skipped total
    by (auto simp: ignore_member_file_iff)
qed

theorem every_member_accounted_for_witness:
  "\<exists>outcome storage'.
      upload_members example_settings example_collaborators ''bucket'' ''v1''
        [extracted ''xul.pdb/ABCD1234/xul.sym'' 100, extracted ''.DS_Store'' 6,
         extracted ''readme-symbols.txt'' 20] Map.empty = (Inr outcome, storage')
      \<and> outcome_ignored_keys outcome = [''.DS_Store'', ''readme-symbols.txt'']
      \<and> map fst (outcome_submitted outcome) = [''v1/xul.pdb/ABCD1234/xul.sym'']
      \<and> outcome_created outcome + length (outcome_skipped_keys outcome) = 1"
proof -
  let ?listing = "[extracted ''xul.pdb/ABCD1234/xul.sym'' 100, extracted ''.DS_Store'' 6,
         extracted ''readme-symbols.txt'' 20]"
  let ?run = "upload_members example_settings example_collaborators ''bucket'' ''v1''
                ?listing Map.empty"
  have "case fst ?run of Inl e \<Rightarrow> False | Inr outcome \<Rightarrow> True"
    by code_simp
  then obtain outcome storage' where run: "?run = (Inr outcome, storage')"
    by (cases ?run; cases "fst ?run"; simp)
  have once: "\<forall>futures. mset (as_completed example_collaborators futures) = mset futures"
    by (simp add: example_collaborators_def)
  have each: "\<forall>work tasks s.
      length (fst (executor_of example_settings example_collaborators work tasks s)) = length tasks"
    using synchronous_executor_length
    by (metis (no_types, lifting) executor_of_def example_settings_def prod.collapse
        settings.select_convs(6))
  note accounted = every_member_accounted_for [OF run once each]
  have ignored: "map name (filter (\<lambda>m. ignorable_name (name m)) ?listing)
      = [''.DS_Store'', ''readme-symbols.txt'']"
    by code_simp
  have submitted: "map fst (map (\<lambda>m. (os_path_join ''v1'' (name m), m))
           (filter (\<lambda>m. \<not> ignorable_name (name m)) ?listing))
      = [''v1/xul.pdb/ABCD1234/xul.sym'']"
    by code_simp
  have "outcome_ignored_keys outcome = [''.DS_Store'', ''readme-symbols.txt'']"
    using accounted ignored by simp
  moreover have keys: "map fst (outcome_submitted outcome) = [''v1/xul.pdb/ABCD1234/xul.sym'']"
    using accounted submitted by simp
  moreover have "outcome_created outcome + length (outcome_skipped_keys outcome) = 1"
  proof -
    have "length (outcome_submitted outcome) = 1"
      using keys by (metis length_map length_Cons list.size(3) One_nat_def)
    then show ?thesis using accounted by simp
  qed
  ultimately show ?thesis
    using run by - (rule exI [of _ outcome], rule exI [of _ storage'], simp)
qed

section \<open>Uploading the same archive again\<close>










section \<open>Duplicate members of an archive\<close>






end
